theory Spec2Isabelle
  imports Main "HOL-Library.Sublist"
begin

section \<open>The Schwa semantic analyzer (src/schwa/analyzer.ts)\<close>

text \<open>
  A shallow embedding of the analyzer of the Schwa compiler. The analyzer decorates an
  abstract syntax tree in place (a scope and a data type per node), builds a tree of
  scopes holding variable, function and struct records, and reports diagnostics to a
  logger. Here the tree is an immutable value, a node is referred to by its path from
  the root, the two annotations of the nodes live in the analyzer state, and every
  \<open>TypeError\<close> that JavaScript raises on a missing child is a result of its own.
\<close>

subsection \<open>Data types (datatype.ts)\<close>

text \<open>
  \<open>DataType\<close> is a string enum; a struct's data type is the struct's name, so a data
  type is a string throughout.
\<close>

abbreviation DataType_None :: string where "DataType_None \<equiv> ''void''"
abbreviation DataType_Invalid :: string where "DataType_Invalid \<equiv> ''invalid''"
abbreviation DataType_Type :: string where "DataType_Type \<equiv> ''type''"
abbreviation DataType_Int :: string where "DataType_Int \<equiv> ''int''"
abbreviation DataType_UInt :: string where "DataType_UInt \<equiv> ''uint''"
abbreviation DataType_Long :: string where "DataType_Long \<equiv> ''long''"
abbreviation DataType_ULong :: string where "DataType_ULong \<equiv> ''ulong''"
abbreviation DataType_Float :: string where "DataType_Float \<equiv> ''float''"
abbreviation DataType_Double :: string where "DataType_Double \<equiv> ''double''"
abbreviation DataType_Bool :: string where "DataType_Bool \<equiv> ''bool''"

definition isPrimitive :: "string \<Rightarrow> bool" where
  "isPrimitive ty =
     (if ty = DataType_None then True
      else if ty = DataType_Invalid then True
      else if ty = DataType_Type then True
      else if ty = DataType_Int then True
      else if ty = DataType_UInt then True
      else if ty = DataType_Long then True
      else if ty = DataType_ULong then True
      else if ty = DataType_Float then True
      else if ty = DataType_Double then True
      else if ty = DataType_Bool then True
      else False)"

subsection \<open>Tokens and syntax trees\<close>

text \<open>
  Modelled from the spec: the enums \<open>TokenType\<close> (token.ts) and \<open>AstType\<close> (ast.ts) and
  the classes \<open>Token\<close> and \<open>AstNode\<close> are not among the sources. The members are the ones
  the lexer, the validator and the analyzer name; a node carries a kind, a token, an
  ordered list of children and the validator's \<open>valid\<close> flag. Only equality of enum
  members is ever used.
\<close>

datatype TokenType =
    TkNone | TkUnknown | TkBOF | TkEOF | TkBOL | TkEOL | TkIndent | TkDedent
  | TkComment | TkInlineComment | TkName
  | TkShL | TkShR | TkRotL | TkRotR | TkEq | TkNe | TkLe | TkGe | TkLt | TkGt
  | TkAnd | TkOr | TkNot | TkAdd | TkSub | TkMul | TkDiv | TkMod | TkNeg
  | TkAND | TkOR | TkXOR | TkNOT | TkAssign | TkLParen | TkRParen | TkComma | TkPeriod
  | TkIf | TkElse | TkElseIf | TkWhile | TkBreak | TkContinue | TkReturn
  | TkAs | TkTo | TkType | TkConst | TkExport
  | TkInt | TkUInt | TkLong | TkULong | TkFloat | TkDouble | TkBool

datatype AstType =
    AstProgram | AstBlock | AstStructDef | AstFunctionDef | AstVariableDef
  | AstGlobal | AstMap | AstAccess | AstConst | AstExport | AstType
  | AstVariableId | AstFunctionId | AstStructId | AstLiteral
  | AstAssignment | AstBinaryOp | AstUnaryOp | AstFunctionCall
  | AstArguments | AstParameters | AstFields | AstReturn | AstReturnVoid
  | AstComment | AstIf | AstElse | AstElseIf | AstWhile | AstBreak | AstContinue

record Token =
  tok_type :: TokenType
  tok_value :: string
  tok_row :: nat
  tok_column :: nat

datatype AstNode =
  AstNode (n_type: AstType) (n_token: Token) (n_children: "AstNode list") (n_valid: bool)

text \<open>
  A reference to a node is the path of child indices that leads to it from the root.
  A path that leads nowhere stands for JavaScript's \<open>undefined\<close> (what \<open>n.children[i]\<close>
  is beyond the end of the array); the root has no parent.
\<close>

type_synonym NodeRef = "nat list"

fun nodeAt :: "AstNode \<Rightarrow> NodeRef \<Rightarrow> AstNode option" where
  "nodeAt n [] = Some n"
| "nodeAt n (i # r) =
     (if i < length (n_children n) then nodeAt (n_children n ! i) r else None)"

definition parentRef :: "NodeRef \<Rightarrow> NodeRef option" where
  "parentRef p = (if p = [] then None else Some (butlast p))"

subsection \<open>Symbol records (scope.ts)\<close>

text \<open>
  A \<open>Scope\<close> object has three fields that are set by its constructor and never assigned
  again (\<open>node\<close>, \<open>parent\<close>, \<open>id\<close>) and four maps that the rules update in place. The
  immutable part, with the address of the object, is the value \<open>Scope\<close>; the maps of
  every scope object live in the store of the analyzer state, under that address.

  Modelled from the spec: the copy of scope.ts among the sources is older than the
  analyzer. It has no \<open>Struct\<close> class, no \<open>structs\<close> map and no \<open>getStruct\<close>, and its
  \<open>Variable\<close> has no modifier flags and no offset. These follow the spec's data model:
  a struct has an id, an ordered field list, a scope, a defining node and an export
  flag; a variable has the flags \<open>const\<close>, \<open>export\<close>, \<open>global\<close>, \<open>mapped\<close> (false on a new
  record) and a byte offset (0 on a new record); \<open>getStruct\<close> looks a struct up the way
  \<open>getScope\<close>, \<open>getVariable\<close> and \<open>getFunction\<close> do.
\<close>

datatype Scope =
  Scope (s_addr: nat) (s_node: "AstNode option") (s_parent: "Scope option") (s_id: string)

text \<open>A JavaScript number that is an integer or \<open>NaN\<close> (\<open>None\<close>).\<close>

type_synonym number = "int option"

record Variable =
  v_node :: "AstNode option"
  v_scope :: Scope
  v_id :: string
  v_type :: string
  v_const :: bool
  v_export :: bool
  v_global :: bool
  v_mapped :: bool
  v_offset :: number

record Function =
  f_node :: "AstNode option"
  f_scope :: Scope
  f_id :: string
  f_type :: string
  f_params :: "Variable list"
  f_export :: bool

record Struct =
  st_node :: "AstNode option"
  st_scope :: Scope
  st_id :: string
  st_fields :: "Variable list"
  st_export :: bool

text \<open>
  The four maps of a scope are objects created by \<open>{}\<close>, read by \<open>map[id]\<close>. The model's
  maps hold the keys that were stored; identifiers are taken not to be names of members
  of \<open>Object.prototype\<close> (\<open>constructor\<close>, \<open>toString\<close>, ...), which read as present in every
  such object.
\<close>

record ScopeMaps =
  scopes :: "string \<rightharpoonup> Scope"
  vars :: "string \<rightharpoonup> Variable"
  funcs :: "string \<rightharpoonup> Function"
  structs :: "string \<rightharpoonup> Struct"

definition emptyMaps :: ScopeMaps where
  "emptyMaps = \<lparr> scopes = Map.empty, vars = Map.empty, funcs = Map.empty, structs = Map.empty \<rparr>"

definition newVariable :: "AstNode option \<Rightarrow> Scope \<Rightarrow> string \<Rightarrow> string \<Rightarrow> Variable" where
  "newVariable n s i ty =
     \<lparr> v_node = n, v_scope = s, v_id = i, v_type = ty, v_const = False, v_export = False,
       v_global = False, v_mapped = False, v_offset = Some 0 \<rparr>"

definition newFunction ::
  "AstNode option \<Rightarrow> Scope \<Rightarrow> string \<Rightarrow> string \<Rightarrow> Variable list \<Rightarrow> Function" where
  "newFunction n s i ty ps =
     \<lparr> f_node = n, f_scope = s, f_id = i, f_type = ty, f_params = ps, f_export = False \<rparr>"

definition newStruct :: "AstNode option \<Rightarrow> Scope \<Rightarrow> string \<Rightarrow> Variable list \<Rightarrow> Struct" where
  "newStruct n s i fs =
     \<lparr> st_node = n, st_scope = s, st_id = i, st_fields = fs, st_export = False \<rparr>"

type_synonym Store = "nat \<Rightarrow> ScopeMaps"

text \<open>
  Hierarchical lookup: the scope's own map first, then the parent's lookup. The
  recursion follows the parent chain, which is part of the scope value.
\<close>

fun getScopeIn :: "Store \<Rightarrow> Scope \<Rightarrow> string \<Rightarrow> Scope option" where
  "getScopeIn h (Scope a n par i) k =
     (case scopes (h a) k of
        Some s \<Rightarrow> Some s
      | None \<Rightarrow> (case par of Some p \<Rightarrow> getScopeIn h p k | None \<Rightarrow> None))"

fun getVariable :: "Store \<Rightarrow> Scope \<Rightarrow> string \<Rightarrow> Variable option" where
  "getVariable h (Scope a n par i) k =
     (case vars (h a) k of
        Some v \<Rightarrow> Some v
      | None \<Rightarrow> (case par of Some p \<Rightarrow> getVariable h p k | None \<Rightarrow> None))"

fun getFunction :: "Store \<Rightarrow> Scope \<Rightarrow> string \<Rightarrow> Function option" where
  "getFunction h (Scope a n par i) k =
     (case funcs (h a) k of
        Some f \<Rightarrow> Some f
      | None \<Rightarrow> (case par of Some p \<Rightarrow> getFunction h p k | None \<Rightarrow> None))"

fun getStruct :: "Store \<Rightarrow> Scope \<Rightarrow> string \<Rightarrow> Struct option" where
  "getStruct h (Scope a n par i) k =
     (case structs (h a) k of
        Some s \<Rightarrow> Some s
      | None \<Rightarrow> (case par of Some p \<Rightarrow> getStruct h p k | None \<Rightarrow> None))"

subsection \<open>Diagnostics and the analyzer state\<close>

text \<open>
  A message is the concatenation the source writes, kept as its pieces: a plain string,
  \<open>JSON.stringify\<close> of a string, or the name of a \<open>TokenType\<close> member.
\<close>

datatype Piece = Lit string | JSON_stringify string | TokenType_name TokenType

datatype LogType = Error | Warning | Info

record LogMsg =
  log_type :: LogType
  log_source :: string
  log_msg :: "Piece list"
  log_row :: nat
  log_column :: nat
  log_length :: nat

record State =
  store :: Store
  next_addr :: nat
  scopeAnn :: "NodeRef \<rightharpoonup> Scope"
  typeAnn :: "NodeRef \<rightharpoonup> string"
  logger :: "LogMsg list"

datatype Err = TypeError

type_synonym 'a Res = "Err + (State \<times> 'a)"

text \<open>\<open>new LogMsg(LogType.Error, "Analyzer", msg, row, column, length)\<close> for a node.\<close>

definition newLogMsg :: "Piece list \<Rightarrow> AstNode \<Rightarrow> LogMsg" where
  "newLogMsg msg n =
     \<lparr> log_type = Error, log_source = ''Analyzer'', log_msg = msg,
       log_row = tok_row (n_token n), log_column = tok_column (n_token n),
       log_length = length (tok_value (n_token n)) \<rparr>"

definition logError :: "Piece list \<Rightarrow> AstNode \<Rightarrow> State \<Rightarrow> State" where
  "logError msg n st = st\<lparr> logger := logger st @ [newLogMsg msg n] \<rparr>"

subsection \<open>Struct sizes\<close>

definition MAX_TYPE_DEPTH :: nat where
  "MAX_TYPE_DEPTH = 16"

function getSize :: "Variable \<Rightarrow> Scope \<Rightarrow> nat \<Rightarrow> State \<Rightarrow> State \<times> int" where
  "getSize v p depth st =
     (if depth > MAX_TYPE_DEPTH then (st, 0)
      else if v_type v = DataType_Int \<or> v_type v = DataType_UInt
              \<or> v_type v = DataType_Float \<or> v_type v = DataType_Bool then (st, 4)
      else if v_type v = DataType_Long \<or> v_type v = DataType_ULong
              \<or> v_type v = DataType_Double then (st, 8)
      else if isPrimitive (v_type v) then (st, 0)
      else (case getStruct (store st) p (v_type v) of
              None \<Rightarrow>
                (case v_node v of
                   Some n \<Rightarrow>
                     (logError [Lit ''No struct named '', Lit (v_type v),
                                Lit '' exists in the current scope''] n st, 0)
                 | None \<Rightarrow> (st, 0))
            | Some struct \<Rightarrow>
                fold (\<lambda>field (s, size).
                        (case getSize field (v_scope field) (depth + 1) s of
                           (s', n) \<Rightarrow> (s', size + n)))
                     (st_fields struct) (st, 0)))"
  by pat_completeness auto
termination
  by (relation "measure (\<lambda>(v, p, depth, st). Suc MAX_TYPE_DEPTH - depth)") auto

declare getSize.simps [simp del]

subsection \<open>State operations\<close>

definition bnd :: "'a Res \<Rightarrow> (State \<Rightarrow> 'a \<Rightarrow> 'b Res) \<Rightarrow> 'b Res" where
  "bnd m f = (case m of Inl e \<Rightarrow> Inl e | Inr (s, x) \<Rightarrow> f s x)"

text \<open>Reading a property of a node reference: a \<open>TypeError\<close> on \<open>undefined\<close>.\<close>

definition deref :: "AstNode \<Rightarrow> NodeRef \<Rightarrow> State \<Rightarrow> AstNode Res" where
  "deref root q st = (case nodeAt root q of None \<Rightarrow> Inl TypeError | Some n \<Rightarrow> Inr (st, n))"

text \<open>JavaScript truthiness of a \<open>string | null\<close>: \<open>null\<close> and the empty string are falsy.\<close>

definition truthy :: "string option \<Rightarrow> bool" where
  "truthy t = (case t of None \<Rightarrow> False | Some s \<Rightarrow> s \<noteq> [])"

definition setScope :: "NodeRef \<Rightarrow> Scope \<Rightarrow> State \<Rightarrow> State" where
  "setScope p s st = st\<lparr> scopeAnn := (scopeAnn st)(p \<mapsto> s) \<rparr>"

definition setType :: "NodeRef \<Rightarrow> string option \<Rightarrow> State \<Rightarrow> State" where
  "setType p t st = st\<lparr> typeAnn := (typeAnn st)(p := t) \<rparr>"

text \<open>\<open>new Scope(node, parent, id)\<close>: a fresh address, with four empty maps.\<close>

definition newScope :: "AstNode option \<Rightarrow> Scope \<Rightarrow> string \<Rightarrow> State \<Rightarrow> State \<times> Scope" where
  "newScope n par i st =
     (st\<lparr> store := (store st)(next_addr st := emptyMaps), next_addr := Suc (next_addr st) \<rparr>,
      Scope (next_addr st) n (Some par) i)"

definition updMaps :: "nat \<Rightarrow> (ScopeMaps \<Rightarrow> ScopeMaps) \<Rightarrow> State \<Rightarrow> State" where
  "updMaps a f st = st\<lparr> store := (store st)(a := f (store st a)) \<rparr>"

text \<open>The root scope of an analyzer: \<open>new Scope(null, null, '')\<close>, at address 0.\<close>

definition rootScope :: Scope where
  "rootScope = Scope 0 None None ''''"

definition initState :: State where
  "initState = \<lparr> store = (\<lambda>a. emptyMaps), next_addr = 1, scopeAnn = Map.empty,
                  typeAnn = Map.empty, logger = [] \<rparr>"

text \<open>
  The scope that holds a symbol found by the hierarchical lookup: assignments to the
  fields of the record that \<open>getVariable\<close> (\<open>getFunction\<close>, \<open>getStruct\<close>) returned update
  the map of that scope.
\<close>

fun ownerOfVariable :: "Store \<Rightarrow> Scope \<Rightarrow> string \<Rightarrow> nat option" where
  "ownerOfVariable h (Scope a n par i) k =
     (case vars (h a) k of
        Some v \<Rightarrow> Some a
      | None \<Rightarrow> (case par of Some p \<Rightarrow> ownerOfVariable h p k | None \<Rightarrow> None))"

fun ownerOfFunction :: "Store \<Rightarrow> Scope \<Rightarrow> string \<Rightarrow> nat option" where
  "ownerOfFunction h (Scope a n par i) k =
     (case funcs (h a) k of
        Some v \<Rightarrow> Some a
      | None \<Rightarrow> (case par of Some p \<Rightarrow> ownerOfFunction h p k | None \<Rightarrow> None))"

fun ownerOfStruct :: "Store \<Rightarrow> Scope \<Rightarrow> string \<Rightarrow> nat option" where
  "ownerOfStruct h (Scope a n par i) k =
     (case structs (h a) k of
        Some v \<Rightarrow> Some a
      | None \<Rightarrow> (case par of Some p \<Rightarrow> ownerOfStruct h p k | None \<Rightarrow> None))"

subsection \<open>Numbers and strings of the host language\<close>

text \<open>Decimal rendering of a natural number (\<open>n.toFixed()\<close>, and \<open>+\<close> of a string and a count).\<close>

fun toFixed :: "nat \<Rightarrow> string" where
  "toFixed n = (if n < 10 then [''0123456789'' ! n]
                else toFixed (n div 10) @ [''0123456789'' ! (n mod 10)])"

declare toFixed.simps [simp del]

definition endsWith :: "string \<Rightarrow> string \<Rightarrow> bool" where
  "endsWith s x = suffix x s"

definition formatOrdinal :: "nat \<Rightarrow> string" where
  "formatOrdinal n =
     (let str = toFixed n in
      if str \<noteq> ''11'' \<and> endsWith str ''1'' then str @ ''st''
      else if str \<noteq> ''12'' \<and> endsWith str ''2'' then str @ ''nd''
      else if str \<noteq> ''13'' \<and> endsWith str ''3'' then str @ ''rd''
      else str @ ''th'')"

text \<open>
  \<open>parseInt\<close> without a radix: leading white space, an optional sign, then hexadecimal
  digits after \<open>0x\<close> or decimal digits; \<open>NaN\<close> when no digit follows. Numbers are exact
  integers here (the source's are doubles).
\<close>

definition isSpace :: "char \<Rightarrow> bool" where
  "isSpace c = (c \<in> set [CHR '' '', CHR 0x09, CHR 0x0A, CHR 0x0B, CHR 0x0C, CHR 0x0D])"

definition digitVal :: "char \<Rightarrow> nat option" where
  "digitVal c =
     (let k = of_char c :: nat in
      if 48 \<le> k \<and> k \<le> 57 then Some (k - 48)
      else if 97 \<le> k \<and> k \<le> 102 then Some (k - 87)
      else if 65 \<le> k \<and> k \<le> 70 then Some (k - 55)
      else None)"

fun parseDigits :: "nat \<Rightarrow> string \<Rightarrow> nat option \<Rightarrow> nat option" where
  "parseDigits radix [] acc = acc"
| "parseDigits radix (c # cs) acc =
     (case digitVal c of
        None \<Rightarrow> acc
      | Some d \<Rightarrow>
          if d < radix
          then parseDigits radix cs (Some ((case acc of None \<Rightarrow> 0 | Some a \<Rightarrow> a) * radix + d))
          else acc)"

definition parseInt :: "string \<Rightarrow> number" where
  "parseInt s =
     (let s1 = dropWhile isSpace s;
          neg = (s1 \<noteq> [] \<and> hd s1 = CHR ''-'');
          s2 = (if s1 \<noteq> [] \<and> (hd s1 = CHR ''-'' \<or> hd s1 = CHR ''+'') then tl s1 else s1);
          hex = (take 2 s2 = ''0x'' \<or> take 2 s2 = ''0X'');
          r = (if hex then parseDigits 16 (drop 2 s2) None else parseDigits 10 s2 None)
      in case r of None \<Rightarrow> None | Some m \<Rightarrow> Some (if neg then - int m else int m))"

definition addNumber :: "number \<Rightarrow> int \<Rightarrow> number" where
  "addNumber x n = (case x of None \<Rightarrow> None | Some a \<Rightarrow> Some (a + n))"

subsection \<open>Walking the tree\<close>

text \<open>The size of the subtree a reference leads to; 0 for \<open>undefined\<close>.\<close>

definition subtreeSize :: "AstNode \<Rightarrow> NodeRef \<Rightarrow> nat" where
  "subtreeSize root q = (case nodeAt root q of None \<Rightarrow> 0 | Some n \<Rightarrow> size n)"

lemma nodeAt_append:
  "nodeAt n (p @ q) = (case nodeAt n p of None \<Rightarrow> None | Some m \<Rightarrow> nodeAt m q)"
  by (induction p arbitrary: n) auto

lemma size_child: "i < length (n_children n) \<Longrightarrow> size (n_children n ! i) < size n"
proof (cases n)
  case (AstNode ty tok cs v)
  assume "i < length (n_children n)"
  then have "cs ! i \<in> set cs" using AstNode by simp
  then have "size (cs ! i) \<le> size_list size cs" by (rule size_list_estimation') simp
  then show ?thesis using AstNode by simp
qed

lemma size_nodeAt: "nodeAt n q = Some m \<Longrightarrow> q \<noteq> [] \<Longrightarrow> size m < size n"
proof (induction q arbitrary: n)
  case Nil
  then show ?case by simp
next
  case (Cons i r)
  from Cons.prems have i: "i < length (n_children n)" and m: "nodeAt (n_children n ! i) r = Some m"
    by (auto split: if_splits)
  show ?case
  proof (cases "r = []")
    case True
    then show ?thesis using m i size_child [of i n] by simp
  next
    case False
    from Cons.IH [OF m False] size_child [OF i] show ?thesis by simp
  qed
qed

lemma subtreeSize_descend:
  assumes "nodeAt root p = Some n" and "q \<noteq> []"
  shows "subtreeSize root (p @ q) < subtreeSize root p"
proof (cases "nodeAt n q")
  case None
  then show ?thesis using assms by (cases n) (simp add: subtreeSize_def nodeAt_append)
next
  case (Some m)
  then show ?thesis using assms size_nodeAt [OF Some] by (simp add: subtreeSize_def nodeAt_append)
qed

lemma subtreeSize_strict_prefix:
  assumes "nodeAt root p = Some n" and "strict_prefix p q"
  shows "subtreeSize root q < subtreeSize root p"
proof -
  from assms(2) obtain r where "q = p @ r" "r \<noteq> []"
    by (auto simp: strict_prefix_def prefix_def)
  then show ?thesis using subtreeSize_descend [OF assms(1)] by simp
qed

text \<open>\<open>pn = n.parent; while (pn && pn.type != ty) pn = pn.parent\<close>\<close>

function ancestorOfType :: "AstNode \<Rightarrow> NodeRef \<Rightarrow> AstType \<Rightarrow> NodeRef option" where
  "ancestorOfType root p ty =
     (if p = [] then None
      else (case nodeAt root (butlast p) of
              None \<Rightarrow> None
            | Some pn \<Rightarrow> if n_type pn \<noteq> ty then ancestorOfType root (butlast p) ty
                         else Some (butlast p)))"
  by pat_completeness auto
termination
  by (relation "measure (\<lambda>(root, p, ty). length p)") auto

declare ancestorOfType.simps [simp del]

text \<open>
  \<open>while (node && node.children) node = node.children[0]\<close>: an array is truthy, also
  when it is empty, so the loop runs until \<open>node\<close> is \<open>undefined\<close>.
\<close>

function leftmost :: "AstNode \<Rightarrow> NodeRef \<Rightarrow> NodeRef option" where
  "leftmost root q =
     (case nodeAt root q of
        None \<Rightarrow> None
      | Some n \<Rightarrow> leftmost root (q @ [0]))"
  by pat_completeness auto
termination
  by (relation "measure (\<lambda>(root, q). subtreeSize root q)")
     (auto intro: subtreeSize_descend)

declare leftmost.simps [simp del]

function getIdentifier :: "AstNode \<Rightarrow> NodeRef \<Rightarrow> Err + NodeRef option" where
  "getIdentifier root q =
     (case nodeAt root q of
        None \<Rightarrow> Inl TypeError
      | Some n \<Rightarrow>
          if n_type n = AstFunctionId \<or> n_type n = AstVariableId then Inr (Some q)
          else if n_type n = AstAccess then getIdentifier root (q @ [1])
          else Inr None)"
  by pat_completeness auto
termination
  by (relation "measure (\<lambda>(root, q). subtreeSize root q)")
     (auto intro: subtreeSize_descend)

declare getIdentifier.simps [simp del]

text \<open>A loop over a list whose body may raise.\<close>

fun forEach :: "('a \<Rightarrow> State \<Rightarrow> Err + State) \<Rightarrow> 'a list \<Rightarrow> State \<Rightarrow> Err + State" where
  "forEach f [] st = Inr st"
| "forEach f (x # xs) st = (case f x st of Inl e \<Rightarrow> Inl e | Inr st1 \<Rightarrow> forEach f xs st1)"

subsection \<open>Materializing the scope of a struct variable\<close>

definition makeStructScope :: "Variable \<Rightarrow> Scope \<Rightarrow> State \<Rightarrow> State" where
  "makeStructScope v p st =
     (if isPrimitive (v_type v) then st
      else (case getStruct (store st) p (v_type v) of
              None \<Rightarrow>
                (case v_node v of
                   Some n \<Rightarrow> logError [Lit ''No struct named '', Lit (v_type v),
                                        Lit '' exists in the current scope''] n st
                 | None \<Rightarrow> st)
            | Some struct \<Rightarrow>
                (case newScope (v_node v) p (v_id v) st of
                   (st1, scope) \<Rightarrow>
                     fst (fold (\<lambda>field (s, offset).
                            (let nvar = (newVariable None scope (v_id field) (v_type field))
                                          \<lparr> v_const := v_const v, v_export := v_export v,
                                            v_mapped := v_mapped v, v_offset := offset \<rparr>;
                                 s1 = updMaps (s_addr scope)
                                        (\<lambda>m. m\<lparr> vars := (vars m)(v_id nvar \<mapsto> nvar) \<rparr>) s
                             in case getSize nvar scope 0 s1 of
                                  (s2, n) \<Rightarrow> (s2, addNumber offset n)))
                          (st_fields struct)
                          (updMaps (s_addr p)
                             (\<lambda>m. m\<lparr> scopes := (scopes m)(s_id scope \<mapsto> scope) \<rparr>) st1,
                           v_offset v)))))"

subsection \<open>Scope rules\<close>

definition liftE :: "Err + 'a \<Rightarrow> State \<Rightarrow> 'a Res" where
  "liftE r st = (case r of Inl e \<Rightarrow> Inl e | Inr x \<Rightarrow> Inr (st, x))"

text \<open>\<open>this.logError(msg, node)\<close> for a node reference that may be \<open>undefined\<close>.\<close>

definition logErrorAt :: "Piece list \<Rightarrow> AstNode \<Rightarrow> NodeRef \<Rightarrow> State \<Rightarrow> unit Res" where
  "logErrorAt msg root q st =
     (case nodeAt root q of None \<Rightarrow> Inl TypeError | Some n \<Rightarrow> Inr (logError msg n st, ()))"

text \<open>The field loop of the StructDef rule: only VariableDef children become fields.\<close>

fun structFields :: "AstNode \<Rightarrow> Scope \<Rightarrow> AstNode list \<Rightarrow> Err + Variable list" where
  "structFields n scope [] = Inr []"
| "structFields n scope (fieldNode # rest) =
     (if n_type fieldNode \<noteq> AstVariableDef then structFields n scope rest
      else (case n_children fieldNode of
              [] \<Rightarrow> Inl TypeError
            | c # cs \<Rightarrow>
                (case structFields n scope rest of
                   Inl e \<Rightarrow> Inl e
                 | Inr vs \<Rightarrow>
                     Inr (newVariable (Some n) scope (tok_value (n_token c))
                            (tok_value (n_token fieldNode)) # vs))))"

text \<open>The parameter loop of the FunctionDef rule: every child becomes a parameter.\<close>

fun funcParams :: "AstNode \<Rightarrow> Scope \<Rightarrow> AstNode list \<Rightarrow> Err + Variable list" where
  "funcParams n scope [] = Inr []"
| "funcParams n scope (paramNode # rest) =
     (case n_children paramNode of
        [] \<Rightarrow> Inl TypeError
      | c # cs \<Rightarrow>
          (case funcParams n scope rest of
             Inl e \<Rightarrow> Inl e
           | Inr vs \<Rightarrow>
               Inr (newVariable (Some n) scope (tok_value (n_token c))
                      (tok_value (n_token paramNode)) # vs)))"

definition scopeRule_Program :: "AstNode \<Rightarrow> NodeRef \<Rightarrow> Scope \<Rightarrow> State \<Rightarrow> Scope Res" where
  "scopeRule_Program root p par st =
     bnd (deref root p st) (\<lambda>st n.
       (case newScope (Some n) par '''' st of
          (st1, scope) \<Rightarrow>
            Inr (updMaps (s_addr par)
                   (\<lambda>m. m\<lparr> scopes := (scopes m)(s_id scope \<mapsto> scope) \<rparr>) st1, scope)))"

definition scopeRule_Block :: "AstNode \<Rightarrow> NodeRef \<Rightarrow> Scope \<Rightarrow> State \<Rightarrow> Scope Res" where
  "scopeRule_Block root p par st =
     bnd (deref root p st) (\<lambda>st n.
       (case newScope (Some n) par '''' st of
          (st1, scope) \<Rightarrow>
            Inr (updMaps (s_addr par)
                   (\<lambda>m. m\<lparr> scopes := (scopes m)(s_id scope \<mapsto> scope) \<rparr>) st1, scope)))"

definition scopeRule_StructDef :: "AstNode \<Rightarrow> NodeRef \<Rightarrow> Scope \<Rightarrow> State \<Rightarrow> Scope Res" where
  "scopeRule_StructDef root p par st =
     bnd (deref root p st) (\<lambda>st n.
     bnd (deref root (p @ [0]) st) (\<lambda>st c0.
       (case newScope (Some n) par (tok_value (n_token c0)) st of
          (st1, scope) \<Rightarrow>
     bnd (deref root (p @ [1]) st1) (\<lambda>st c1.
     bnd (liftE (structFields n scope (n_children c1)) st) (\<lambda>st fields.
       (let struct = newStruct (Some n) scope (tok_value (n_token c0)) fields in
        case structs (store st (s_addr par)) (st_id struct) of
          Some old \<Rightarrow>
            Inr (logError [Lit ''A struct with the name '', JSON_stringify (st_id struct),
                           Lit '' already exists in the current scope''] n st, scope)
        | None \<Rightarrow>
            Inr (updMaps (s_addr par)
                   (\<lambda>m. m\<lparr> scopes := (scopes m)(s_id scope \<mapsto> scope) \<rparr>)
                   (updMaps (s_addr par)
                      (\<lambda>m. m\<lparr> structs := (structs m)(st_id struct \<mapsto> struct) \<rparr>) st),
                 scope)))))))"

definition scopeRule_FunctionDef :: "AstNode \<Rightarrow> NodeRef \<Rightarrow> Scope \<Rightarrow> State \<Rightarrow> Scope Res" where
  "scopeRule_FunctionDef root p par st =
     bnd (deref root p st) (\<lambda>st n.
     bnd (deref root (p @ [0]) st) (\<lambda>st c0.
       (case newScope (Some n) par (tok_value (n_token c0)) st of
          (st1, scope) \<Rightarrow>
     bnd (deref root (p @ [1]) st1) (\<lambda>st c1.
     bnd (liftE (funcParams n scope (n_children c1)) st) (\<lambda>st params.
       (let func = newFunction (Some n) scope (tok_value (n_token c0))
                     (tok_value (n_token n)) params in
        case funcs (store st (s_addr par)) (f_id func) of
          Some old \<Rightarrow>
            Inr (logError [Lit ''A function with the name '', JSON_stringify (f_id func),
                           Lit '' already exists in the current scope''] n st, scope)
        | None \<Rightarrow>
            Inr (updMaps (s_addr par)
                   (\<lambda>m. m\<lparr> scopes := (scopes m)(s_id scope \<mapsto> scope) \<rparr>)
                   (updMaps (s_addr par)
                      (\<lambda>m. m\<lparr> funcs := (funcs m)(f_id func \<mapsto> func) \<rparr>) st),
                 scope)))))))"

text \<open>
  The VariableDef rule stores the new record and then sets its flags; the model sets the
  flags and then stores the record.
\<close>

definition variableFlags :: "AstNode \<Rightarrow> NodeRef \<Rightarrow> Variable \<Rightarrow> State \<Rightarrow> Variable Res" where
  "variableFlags root p nvar st =
     (let nvar1 = (case ancestorOfType root p AstGlobal of
                     Some g \<Rightarrow> nvar\<lparr> v_global := True \<rparr>
                   | None \<Rightarrow> nvar)
      in case ancestorOfType root p AstMap of
           None \<Rightarrow> Inr (st, nvar1)
         | Some q \<Rightarrow>
             bnd (deref root q st) (\<lambda>st pn.
               (let nvar2 = nvar1\<lparr> v_global := True, v_mapped := True \<rparr> in
                if length (n_children pn) \<ge> 2
                then bnd (deref root (q @ [1]) st) (\<lambda>st c.
                       Inr (st, nvar2\<lparr> v_offset := parseInt (tok_value (n_token c)) \<rparr>))
                else Inr (st, nvar2))))"

definition scopeRule_VariableDef :: "AstNode \<Rightarrow> NodeRef \<Rightarrow> Scope \<Rightarrow> State \<Rightarrow> Scope Res" where
  "scopeRule_VariableDef root p par st =
     bnd (deref root p st) (\<lambda>st n.
     bnd (deref root (p @ [0]) st) (\<lambda>st c0.
       (let nvar = newVariable (Some n) par (tok_value (n_token c0)) (tok_value (n_token n)) in
        case vars (store st (s_addr par)) (v_id nvar) of
          Some old \<Rightarrow>
            Inr (logError [Lit ''A variable with the name '', JSON_stringify (v_id nvar),
                           Lit '' already exists in the current scope''] n st, par)
        | None \<Rightarrow>
            bnd (variableFlags root p nvar st) (\<lambda>st nvar'.
              Inr (updMaps (s_addr par)
                     (\<lambda>m. m\<lparr> vars := (vars m)(v_id nvar' \<mapsto> nvar') \<rparr>) st, par)))))"

definition scopeRule_Access :: "AstNode \<Rightarrow> NodeRef \<Rightarrow> Scope \<Rightarrow> State \<Rightarrow> Scope Res" where
  "scopeRule_Access root p par st =
     bnd (deref root p st) (\<lambda>st n.
     bnd (deref root (p @ [0]) st) (\<lambda>st c0.
       (case getScopeIn (store st) par (tok_value (n_token c0)) of
          Some scope \<Rightarrow> Inr (st, scope)
        | None \<Rightarrow>
            (case getVariable (store st) par (tok_value (n_token c0)) of
               Some nvar \<Rightarrow>
                 (let st1 = makeStructScope nvar par st in
                  case getScopeIn (store st1) par (tok_value (n_token c0)) of
                    Some scope \<Rightarrow> Inr (st1, scope)
                  | None \<Rightarrow>
                      Inr (logError [Lit ''No scope named '',
                                     JSON_stringify (tok_value (n_token c0)),
                                     Lit '' exists in the current scope''] n st1, par))
             | None \<Rightarrow>
                 Inr (logError [Lit ''No scope named '', JSON_stringify (tok_value (n_token c0)),
                                Lit '' exists in the current scope''] n st, par)))))"

definition declaredLeaf :: "AstNode \<Rightarrow> NodeRef \<Rightarrow> NodeRef option" where
  "declaredLeaf root p = (case parentRef p of None \<Rightarrow> None | Some q \<Rightarrow> leftmost root q)"

definition scopeRule_Const :: "AstNode \<Rightarrow> NodeRef \<Rightarrow> Scope \<Rightarrow> State \<Rightarrow> Scope Res" where
  "scopeRule_Const root p par st =
     (case declaredLeaf root p of
        None \<Rightarrow> Inr (st, par)
      | Some q \<Rightarrow>
          bnd (deref root q st) (\<lambda>st node.
            (let k = tok_value (n_token node) in
             case ownerOfVariable (store st) par k of
               None \<Rightarrow> Inr (st, par)
             | Some a \<Rightarrow>
                 Inr (updMaps a (\<lambda>m. m\<lparr> vars := (vars m)
                        (k := map_option (\<lambda>v. v\<lparr> v_const := True \<rparr>) (vars m k)) \<rparr>) st, par))))"

definition scopeRule_Export :: "AstNode \<Rightarrow> NodeRef \<Rightarrow> Scope \<Rightarrow> State \<Rightarrow> Scope Res" where
  "scopeRule_Export root p par st =
     (case declaredLeaf root p of
        None \<Rightarrow> Inr (st, par)
      | Some q \<Rightarrow>
          bnd (deref root q st) (\<lambda>st node.
            (let k = tok_value (n_token node);
                 st1 = (case ownerOfVariable (store st) par k of
                          None \<Rightarrow> st
                        | Some a \<Rightarrow> updMaps a (\<lambda>m. m\<lparr> vars := (vars m)
                            (k := map_option (\<lambda>v. v\<lparr> v_export := True \<rparr>) (vars m k)) \<rparr>) st);
                 st2 = (case ownerOfFunction (store st1) par k of
                          None \<Rightarrow> st1
                        | Some a \<Rightarrow> updMaps a (\<lambda>m. m\<lparr> funcs := (funcs m)
                            (k := map_option (\<lambda>f. f\<lparr> f_export := True \<rparr>) (funcs m k)) \<rparr>) st1);
                 st3 = (case ownerOfStruct (store st2) par k of
                          None \<Rightarrow> st2
                        | Some a \<Rightarrow> updMaps a (\<lambda>m. m\<lparr> structs := (structs m)
                            (k := map_option (\<lambda>s. s\<lparr> st_export := True \<rparr>) (structs m k)) \<rparr>) st2)
             in Inr (st3, par))))"

subsection \<open>The rule registry and \<open>getScope\<close>\<close>

text \<open>
  The rules are closures over the analyzer, and the type rules call the analyzer's
  \<open>getDataType\<close>, which runs the rules. The registry therefore holds the names of the
  rules, in registration order; \<open>runScopeRule\<close> and \<open>runDataTypeRule\<close> run a rule by its
  name. An analysis rule is any function of a node and the state.
\<close>

datatype ScopeRule =
    ScopeRule_Program | ScopeRule_Block | ScopeRule_StructDef | ScopeRule_FunctionDef
  | ScopeRule_VariableDef | ScopeRule_Access | ScopeRule_Const | ScopeRule_Export

type_synonym TypeSet = "string \<times> string \<times> string"

datatype DataTypeRule =
    DataTypeRule_Access | DataTypeRule_VariableId | DataTypeRule_FunctionId
  | DataTypeRule_StructId | DataTypeRule_Type | DataTypeRule_VariableDef
  | DataTypeRule_FunctionDef | DataTypeRule_StructDef | DataTypeRule_Literal
  | DataTypeRule_UnaryOp TokenType "TypeSet list"
  | DataTypeRule_BinaryOp TokenType "TypeSet list"
  | DataTypeRule_Assignment | DataTypeRule_Global | DataTypeRule_As | DataTypeRule_To
  | DataTypeRule_FunctionCall | DataTypeRule_Return | DataTypeRule_ReturnVoid

type_synonym AnalyzeRule = "AstNode \<Rightarrow> NodeRef \<Rightarrow> State \<Rightarrow> Err + State"

record Analyzer =
  scopeRuleMap :: "AstType \<rightharpoonup> ScopeRule list"
  dataTypeRuleMap :: "AstType \<rightharpoonup> DataTypeRule list"
  analysisRuleMap :: "AstType \<rightharpoonup> AnalyzeRule list"

fun runScopeRule :: "ScopeRule \<Rightarrow> AstNode \<Rightarrow> NodeRef \<Rightarrow> Scope \<Rightarrow> State \<Rightarrow> Scope Res" where
  "runScopeRule ScopeRule_Program = scopeRule_Program"
| "runScopeRule ScopeRule_Block = scopeRule_Block"
| "runScopeRule ScopeRule_StructDef = scopeRule_StructDef"
| "runScopeRule ScopeRule_FunctionDef = scopeRule_FunctionDef"
| "runScopeRule ScopeRule_VariableDef = scopeRule_VariableDef"
| "runScopeRule ScopeRule_Access = scopeRule_Access"
| "runScopeRule ScopeRule_Const = scopeRule_Const"
| "runScopeRule ScopeRule_Export = scopeRule_Export"

text \<open>\<open>for (let rule of rules) node.scope = rule(node, parentScope)\<close>\<close>

fun applyScopeRules ::
  "ScopeRule list \<Rightarrow> AstNode \<Rightarrow> NodeRef \<Rightarrow> Scope \<Rightarrow> State \<Rightarrow> Err + State" where
  "applyScopeRules [] root p par st = Inr st"
| "applyScopeRules (r # rs) root p par st =
     (case runScopeRule r root p par st of
        Inl e \<Rightarrow> Inl e
      | Inr (st1, s) \<Rightarrow> applyScopeRules rs root p par (setScope p s st1))"

function getScope :: "Analyzer \<Rightarrow> AstNode \<Rightarrow> NodeRef \<Rightarrow> State \<Rightarrow> Scope Res" where
  "getScope A root p st =
     (case nodeAt root p of
        None \<Rightarrow> Inl TypeError
      | Some n \<Rightarrow>
          (case scopeAnn st p of
             Some s \<Rightarrow> Inr (st, s)
           | None \<Rightarrow>
               (case (if p = [] then Inr (st, rootScope) else getScope A root (butlast p) st) of
                  Inl e \<Rightarrow> Inl e
                | Inr (st1, parentScope) \<Rightarrow>
                    (case (case scopeRuleMap A (n_type n) of
                             None \<Rightarrow> Inr st1
                           | Some rules \<Rightarrow> applyScopeRules rules root p parentScope st1) of
                       Inl e \<Rightarrow> Inl e
                     | Inr st2 \<Rightarrow>
                         (case scopeAnn st2 p of
                            None \<Rightarrow> Inr (setScope p parentScope st2, parentScope)
                          | Some s \<Rightarrow> Inr (st2, s))))))"
  by pat_completeness auto
termination
  by (relation "measure (\<lambda>(A, root, p, st). length p)") auto

declare getScope.simps [simp del]

subsection \<open>Data type rules\<close>

definition fromTokenType :: "TokenType \<Rightarrow> string" where
  "fromTokenType ty =
     (if ty = TkInt then DataType_Int
      else if ty = TkUInt then DataType_UInt
      else if ty = TkLong then DataType_Long
      else if ty = TkULong then DataType_ULong
      else if ty = TkFloat then DataType_Float
      else if ty = TkDouble then DataType_Double
      else if ty = TkBool then DataType_Bool
      else DataType_Invalid)"

text \<open>
  A type rule receives the analyzer's \<open>getDataType\<close> as \<open>gdt\<close>; the rules call it on
  children and on the identifier inside a member access.
\<close>

type_synonym GetDataType = "NodeRef \<Rightarrow> State \<Rightarrow> string Res"

definition typeRule_Access ::
  "GetDataType \<Rightarrow> AstNode \<Rightarrow> NodeRef \<Rightarrow> State \<Rightarrow> string option Res" where
  "typeRule_Access gdt root p st =
     bnd (deref root p st) (\<lambda>st n.
       if length (n_children n) \<ge> 2
       then (case getIdentifier root p of
               Inl e \<Rightarrow> Inl e
             | Inr None \<Rightarrow> Inr (st, Some DataType_Invalid)
             | Inr (Some node) \<Rightarrow> bnd (gdt node st) (\<lambda>st t. Inr (st, Some t)))
       else Inr (st, Some DataType_Invalid))"

definition typeRule_VariableId ::
  "Analyzer \<Rightarrow> AstNode \<Rightarrow> NodeRef \<Rightarrow> State \<Rightarrow> string option Res" where
  "typeRule_VariableId A root p st =
     bnd (deref root p st) (\<lambda>st n.
     bnd (getScope A root p st) (\<lambda>st sc0.
     bnd (getScope A root p st) (\<lambda>st sc.
       (case getVariable (store st) sc (tok_value (n_token n)) of
          Some nvar \<Rightarrow> Inr (st, Some (v_type nvar))
        | None \<Rightarrow>
            Inr (logError [Lit ''No variable named '', JSON_stringify (tok_value (n_token n)),
                           Lit '' exists in the current scope''] n st,
                 Some DataType_Invalid)))))"

definition typeRule_FunctionId ::
  "Analyzer \<Rightarrow> AstNode \<Rightarrow> NodeRef \<Rightarrow> State \<Rightarrow> string option Res" where
  "typeRule_FunctionId A root p st =
     bnd (deref root p st) (\<lambda>st n.
     bnd (getScope A root p st) (\<lambda>st sc0.
     bnd (getScope A root p st) (\<lambda>st sc.
       (case getFunction (store st) sc (tok_value (n_token n)) of
          Some func \<Rightarrow> Inr (st, Some (f_type func))
        | None \<Rightarrow>
            Inr (logError [Lit ''No function named '', JSON_stringify (tok_value (n_token n)),
                           Lit '' exists in the current scope''] n st,
                 Some DataType_Invalid)))))"

definition typeRule_StructId ::
  "Analyzer \<Rightarrow> AstNode \<Rightarrow> NodeRef \<Rightarrow> State \<Rightarrow> string option Res" where
  "typeRule_StructId A root p st =
     bnd (deref root p st) (\<lambda>st n.
     bnd (getScope A root p st) (\<lambda>st sc0.
     bnd (getScope A root p st) (\<lambda>st sc.
       (case getStruct (store st) sc (tok_value (n_token n)) of
          Some struct \<Rightarrow> Inr (st, Some (st_id struct))
        | None \<Rightarrow>
            Inr (logError [Lit ''No struct named '', JSON_stringify (tok_value (n_token n)),
                           Lit '' exists in the current scope''] n st,
                 Some DataType_Invalid)))))"

definition typeRule_Type :: "AstNode \<Rightarrow> NodeRef \<Rightarrow> State \<Rightarrow> string option Res" where
  "typeRule_Type root p st = Inr (st, Some DataType_Type)"

definition typeRule_VariableDef :: "AstNode \<Rightarrow> NodeRef \<Rightarrow> State \<Rightarrow> string option Res" where
  "typeRule_VariableDef root p st =
     bnd (deref root p st) (\<lambda>st n. Inr (st, Some (tok_value (n_token n))))"

definition typeRule_FunctionDef :: "AstNode \<Rightarrow> NodeRef \<Rightarrow> State \<Rightarrow> string option Res" where
  "typeRule_FunctionDef root p st =
     bnd (deref root p st) (\<lambda>st n. Inr (st, Some (tok_value (n_token n))))"

definition typeRule_StructDef :: "AstNode \<Rightarrow> NodeRef \<Rightarrow> State \<Rightarrow> string option Res" where
  "typeRule_StructDef root p st =
     bnd (deref root (p @ [0]) st) (\<lambda>st c0. Inr (st, Some (tok_value (n_token c0))))"

definition typeRule_Literal :: "AstNode \<Rightarrow> NodeRef \<Rightarrow> State \<Rightarrow> string option Res" where
  "typeRule_Literal root p st =
     bnd (deref root p st) (\<lambda>st n. Inr (st, Some (fromTokenType (tok_type (n_token n)))))"

text \<open>The type sets of the operator tables.\<close>

definition intTypeSet :: TypeSet where
  "intTypeSet = (DataType_Int, DataType_Int, DataType_Int)"
definition uintTypeSet :: TypeSet where
  "uintTypeSet = (DataType_UInt, DataType_UInt, DataType_UInt)"
definition longTypeSet :: TypeSet where
  "longTypeSet = (DataType_Long, DataType_Long, DataType_Long)"
definition ulongTypeSet :: TypeSet where
  "ulongTypeSet = (DataType_ULong, DataType_ULong, DataType_ULong)"
definition floatTypeSet :: TypeSet where
  "floatTypeSet = (DataType_Float, DataType_Float, DataType_Float)"
definition doubleTypeSet :: TypeSet where
  "doubleTypeSet = (DataType_Double, DataType_Double, DataType_Double)"
definition fixedTypeSets :: "TypeSet list" where
  "fixedTypeSets = [intTypeSet, uintTypeSet, longTypeSet, ulongTypeSet]"
definition floatingTypeSets :: "TypeSet list" where
  "floatingTypeSets = [floatTypeSet, doubleTypeSet]"
definition signedTypeSets :: "TypeSet list" where
  "signedTypeSets = [intTypeSet, longTypeSet, floatTypeSet, doubleTypeSet]"
definition numberTypeSets :: "TypeSet list" where
  "numberTypeSets =
     [intTypeSet, uintTypeSet, longTypeSet, ulongTypeSet, floatTypeSet, doubleTypeSet]"
definition boolTypeSet :: TypeSet where
  "boolTypeSet = (DataType_Bool, DataType_Bool, DataType_Bool)"
definition compareSets :: "TypeSet list" where
  "compareSets =
     [(DataType_Int, DataType_Int, DataType_Bool), (DataType_UInt, DataType_UInt, DataType_Bool),
      (DataType_Long, DataType_Long, DataType_Bool),
      (DataType_ULong, DataType_ULong, DataType_Bool),
      (DataType_Float, DataType_Float, DataType_Bool),
      (DataType_Double, DataType_Double, DataType_Bool)]"

definition typeRule_UnaryOp ::
  "TokenType \<Rightarrow> TypeSet list \<Rightarrow> GetDataType \<Rightarrow> AstNode \<Rightarrow> NodeRef \<Rightarrow> State
     \<Rightarrow> string option Res" where
  "typeRule_UnaryOp ty typeSets gdt root p st =
     bnd (deref root p st) (\<lambda>st n.
       if truthy (typeAnn st p) \<or> tok_type (n_token n) \<noteq> ty then Inr (st, typeAnn st p)
       else bnd (gdt (p @ [0]) st) (\<lambda>st t.
         (case find (\<lambda>(a, b, c). t = a) typeSets of
            Some (a, b, c) \<Rightarrow> Inr (st, Some b)
          | None \<Rightarrow>
              bnd (logErrorAt [Lit ''Invalid argument to operator '',
                               TokenType_name (tok_type (n_token n))] root (p @ [0]) st)
                (\<lambda>st u. Inr (st, Some DataType_Invalid)))))"

definition typeRule_BinaryOp ::
  "TokenType \<Rightarrow> TypeSet list \<Rightarrow> GetDataType \<Rightarrow> AstNode \<Rightarrow> NodeRef \<Rightarrow> State
     \<Rightarrow> string option Res" where
  "typeRule_BinaryOp ty typeSets gdt root p st =
     bnd (deref root p st) (\<lambda>st n.
       if truthy (typeAnn st p) \<or> tok_type (n_token n) \<noteq> ty then Inr (st, typeAnn st p)
       else bnd (gdt (p @ [0]) st) (\<lambda>st t0.
            bnd (gdt (p @ [1]) st) (\<lambda>st t1.
         (case find (\<lambda>(a, b, c). t0 = a \<and> t1 = b) typeSets of
            Some (a, b, c) \<Rightarrow> Inr (st, Some c)
          | None \<Rightarrow>
              bnd (logErrorAt [Lit ''Invalid 1st argument to operator '',
                               TokenType_name (tok_type (n_token n))] root (p @ [0]) st)
                (\<lambda>st u.
              bnd (logErrorAt [Lit ''Invalid 2nd argument to operator '',
                               TokenType_name (tok_type (n_token n))] root (p @ [1]) st)
                (\<lambda>st u. Inr (st, Some DataType_Invalid)))))))"

text \<open>
  The part that the Assignment rule and the Global rule share: both sides are typed, an
  invalid side is reported, and two valid sides must have the same type.
\<close>

definition assignmentSides ::
  "GetDataType \<Rightarrow> AstNode \<Rightarrow> NodeRef \<Rightarrow> AstNode \<Rightarrow> State \<Rightarrow> string option Res" where
  "assignmentSides gdt root p n st =
     bnd (gdt (p @ [0]) st) (\<lambda>st t0.
     bnd (gdt (p @ [1]) st) (\<lambda>st t1.
       if t0 = DataType_Invalid \<or> t1 = DataType_Invalid
       then bnd (if t0 = DataType_Invalid
                 then logErrorAt [Lit ''Invalid left-hand side of assignment''] root (p @ [0]) st
                 else Inr (st, ()))
              (\<lambda>st u.
            bnd (if t1 = DataType_Invalid
                 then logErrorAt [Lit ''Invalid right-hand side of assignment''] root (p @ [1]) st
                 else Inr (st, ()))
              (\<lambda>st u. Inr (st, Some DataType_Invalid)))
       else if t0 \<noteq> t1
       then Inr (logError [Lit ''Both sides of an assignment must be of the same type''] n st,
                 Some DataType_Invalid)
       else Inr (st, Some t0)))"

text \<open>
  The const check of the Assignment rule: the variable that the identifier inside the
  target resolves to, when there is one.
\<close>

definition assignedVariable ::
  "Analyzer \<Rightarrow> AstNode \<Rightarrow> NodeRef \<Rightarrow> State \<Rightarrow> Variable option Res" where
  "assignedVariable A root p st =
     (case getIdentifier root (p @ [0]) of
        Inl e \<Rightarrow> Inl e
      | Inr None \<Rightarrow> Inr (st, None)
      | Inr (Some ident) \<Rightarrow>
          bnd (getScope A root ident st) (\<lambda>st sc.
          bnd (deref root ident st) (\<lambda>st idn.
            Inr (st, getVariable (store st) sc (tok_value (n_token idn))))))"

definition typeRule_Assignment ::
  "Analyzer \<Rightarrow> GetDataType \<Rightarrow> AstNode \<Rightarrow> NodeRef \<Rightarrow> State \<Rightarrow> string option Res" where
  "typeRule_Assignment A gdt root p st =
     bnd (deref root p st) (\<lambda>st n.
     bnd (assignedVariable A root p st) (\<lambda>st nvar.
       if (case nvar of None \<Rightarrow> False | Some v \<Rightarrow> v_const v)
       then Inr (logError [Lit ''Constant globals cannot be assigned to''] n st,
                 Some DataType_Invalid)
       else assignmentSides gdt root p n st))"

definition typeRule_Global ::
  "GetDataType \<Rightarrow> AstNode \<Rightarrow> NodeRef \<Rightarrow> State \<Rightarrow> string option Res" where
  "typeRule_Global gdt root p st =
     bnd (deref root p st) (\<lambda>st n. assignmentSides gdt root p n st)"

text \<open>The table of the value cast \<open>as\<close>; \<open>None\<close> when no line of the table applies.\<close>

definition asCast :: "string \<Rightarrow> string \<Rightarrow> string option" where
  "asCast t0 t1 =
     (if t0 = DataType_Int \<and> t1 = DataType_UInt then Some DataType_UInt
      else if t0 = DataType_Int \<and> t1 = DataType_Float then Some DataType_Float
      else if t0 = DataType_UInt \<and> t1 = DataType_Int then Some DataType_Int
      else if t0 = DataType_UInt \<and> t1 = DataType_Float then Some DataType_Float
      else if t0 = DataType_Long \<and> t1 = DataType_ULong then Some DataType_ULong
      else if t0 = DataType_Long \<and> t1 = DataType_Double then Some DataType_Double
      else if t0 = DataType_ULong \<and> t1 = DataType_Long then Some DataType_Long
      else if t0 = DataType_ULong \<and> t1 = DataType_Double then Some DataType_Double
      else if t0 = DataType_Float \<and> t1 = DataType_Int then Some DataType_Int
      else if t0 = DataType_Float \<and> t1 = DataType_UInt then Some DataType_UInt
      else if t0 = DataType_Double \<and> t1 = DataType_Long then Some DataType_Long
      else if t0 = DataType_Double \<and> t1 = DataType_ULong then Some DataType_ULong
      else None)"

text \<open>The table of the conversion \<open>to\<close>.\<close>

definition toCast :: "string \<Rightarrow> string \<Rightarrow> string option" where
  "toCast t0 t1 =
     (if t0 = DataType_Int \<and> t1 = DataType_Long then Some DataType_Long
      else if t0 = DataType_Int \<and> t1 = DataType_ULong then Some DataType_ULong
      else if t0 = DataType_Int \<and> t1 = DataType_Float then Some DataType_Float
      else if t0 = DataType_Int \<and> t1 = DataType_Double then Some DataType_Double
      else if t0 = DataType_UInt \<and> t1 = DataType_Long then Some DataType_Long
      else if t0 = DataType_UInt \<and> t1 = DataType_ULong then Some DataType_ULong
      else if t0 = DataType_UInt \<and> t1 = DataType_Float then Some DataType_Float
      else if t0 = DataType_UInt \<and> t1 = DataType_Double then Some DataType_Double
      else if t0 = DataType_Long \<and> t1 = DataType_Int then Some DataType_Int
      else if t0 = DataType_Long \<and> t1 = DataType_UInt then Some DataType_UInt
      else if t0 = DataType_Long \<and> t1 = DataType_Float then Some DataType_Float
      else if t0 = DataType_Long \<and> t1 = DataType_Double then Some DataType_Double
      else if t0 = DataType_ULong \<and> t1 = DataType_Int then Some DataType_Int
      else if t0 = DataType_ULong \<and> t1 = DataType_UInt then Some DataType_UInt
      else if t0 = DataType_ULong \<and> t1 = DataType_Float then Some DataType_Float
      else if t0 = DataType_ULong \<and> t1 = DataType_Double then Some DataType_Double
      else if t0 = DataType_Float \<and> t1 = DataType_Int then Some DataType_Int
      else if t0 = DataType_Float \<and> t1 = DataType_UInt then Some DataType_UInt
      else if t0 = DataType_Float \<and> t1 = DataType_Long then Some DataType_Long
      else if t0 = DataType_Float \<and> t1 = DataType_ULong then Some DataType_ULong
      else if t0 = DataType_Float \<and> t1 = DataType_Double then Some DataType_Double
      else if t0 = DataType_Double \<and> t1 = DataType_Int then Some DataType_Int
      else if t0 = DataType_Double \<and> t1 = DataType_UInt then Some DataType_UInt
      else if t0 = DataType_Double \<and> t1 = DataType_Long then Some DataType_Long
      else if t0 = DataType_Double \<and> t1 = DataType_ULong then Some DataType_ULong
      else if t0 = DataType_Double \<and> t1 = DataType_Float then Some DataType_Float
      else None)"

text \<open>The type named on the right of a cast: \<open>invalid\<close> unless a Type node other than \<open>bool\<close>.\<close>

definition castTarget :: "AstNode \<Rightarrow> string" where
  "castTarget c1 =
     (let t1 = (if n_type c1 = AstType then tok_value (n_token c1) else DataType_Invalid)
      in if t1 = DataType_Bool then DataType_Invalid else t1)"

definition castRule ::
  "TokenType \<Rightarrow> (string \<Rightarrow> string \<Rightarrow> string option) \<Rightarrow> GetDataType \<Rightarrow> AstNode \<Rightarrow> NodeRef
     \<Rightarrow> State \<Rightarrow> string option Res" where
  "castRule ty table gdt root p st =
     bnd (deref root p st) (\<lambda>st n.
       if truthy (typeAnn st p) \<or> tok_type (n_token n) \<noteq> ty then Inr (st, typeAnn st p)
       else bnd (gdt (p @ [0]) st) (\<lambda>st t0.
            bnd (deref root (p @ [1]) st) (\<lambda>st c1.
         (let t1 = castTarget c1 in
          case table t0 t1 of
            Some t \<Rightarrow> Inr (st, Some t)
          | None \<Rightarrow>
              bnd (if t0 = DataType_Invalid
                   then logErrorAt [Lit ''Invalid value argument to operator '',
                                    TokenType_name (tok_type (n_token n))] root (p @ [0]) st
                   else Inr (st, ()))
                (\<lambda>st u.
              bnd (if t1 = DataType_Invalid
                   then logErrorAt [Lit ''Invalid type argument to operator '',
                                    TokenType_name (tok_type (n_token n))] root (p @ [1]) st
                   else Inr (st, ()))
                (\<lambda>st u. Inr (st, Some DataType_Invalid)))))))"

definition typeRule_As ::
  "GetDataType \<Rightarrow> AstNode \<Rightarrow> NodeRef \<Rightarrow> State \<Rightarrow> string option Res" where
  "typeRule_As = castRule TkAs asCast"

definition typeRule_To ::
  "GetDataType \<Rightarrow> AstNode \<Rightarrow> NodeRef \<Rightarrow> State \<Rightarrow> string option Res" where
  "typeRule_To = castRule TkTo toCast"

text \<open>The argument loop of the FunctionCall rule, from index \<open>i\<close> on.\<close>

definition paramMismatch :: "Function \<Rightarrow> nat \<Rightarrow> string \<Rightarrow> Piece list" where
  "paramMismatch func i ty =
     [Lit ''The '', Lit (formatOrdinal (i + 1)), Lit '' parameter ('',
      JSON_stringify (v_id (f_params func ! i)), Lit '') of function '',
      JSON_stringify (f_id func), Lit '' is type '', Lit (v_type (f_params func ! i)),
      Lit '', not '', Lit ty]"

function checkArgs ::
  "GetDataType \<Rightarrow> AstNode \<Rightarrow> NodeRef \<Rightarrow> Function \<Rightarrow> nat \<Rightarrow> bool \<Rightarrow> State \<Rightarrow> bool Res" where
  "checkArgs gdt root p func i valid st =
     (if i < length (f_params func)
      then (case gdt (p @ [1, i]) st of
              Inl e \<Rightarrow> Inl e
            | Inr (st1, ty) \<Rightarrow>
                if ty \<noteq> v_type (f_params func ! i)
                then (case logErrorAt (paramMismatch func i ty) root (p @ [1, i]) st1 of
                        Inl e \<Rightarrow> Inl e
                      | Inr (st2, u) \<Rightarrow> checkArgs gdt root p func (i + 1) False st2)
                else checkArgs gdt root p func (i + 1) valid st1)
      else Inr (st, valid))"
  by pat_completeness auto
termination
  by (relation "measure (\<lambda>(gdt, root, p, func, i, valid, st). length (f_params func) - i)") auto

declare checkArgs.simps [simp del]

text \<open>The function that the callee of a call resolves to.\<close>

definition calledFunction ::
  "Analyzer \<Rightarrow> AstNode \<Rightarrow> NodeRef \<Rightarrow> NodeRef \<Rightarrow> State \<Rightarrow> Function option Res" where
  "calledFunction A root p ident st =
     bnd (getScope A root ident st) (\<lambda>st sc.
     bnd (deref root ident st) (\<lambda>st idn.
       Inr (st, getFunction (store st) sc (tok_value (n_token idn)))))"

definition argCountMismatch :: "Function \<Rightarrow> nat \<Rightarrow> Piece list" where
  "argCountMismatch func nargs =
     [Lit ''Function '', JSON_stringify (f_id func), Lit '' takes '',
      Lit (toFixed (length (f_params func))), Lit '' arguments, not '', Lit (toFixed nargs)]"

definition typeRule_FunctionCall ::
  "Analyzer \<Rightarrow> GetDataType \<Rightarrow> AstNode \<Rightarrow> NodeRef \<Rightarrow> State \<Rightarrow> string option Res" where
  "typeRule_FunctionCall A gdt root p st =
     bnd (deref root p st) (\<lambda>st n.
       (case getIdentifier root (p @ [0]) of
          Inl e \<Rightarrow> Inl e
        | Inr None \<Rightarrow>
            Inr (logError [Lit ''Invalid function identifier''] n st, Some DataType_Invalid)
        | Inr (Some ident) \<Rightarrow>
            bnd (calledFunction A root p ident st) (\<lambda>st fo.
              (case fo of
                 None \<Rightarrow>
                   bnd (deref root ident st) (\<lambda>st idn.
                     Inr (logError [Lit ''No function named '',
                                    JSON_stringify (tok_value (n_token idn)),
                                    Lit '' exists in the current scope''] n st,
                          Some DataType_Invalid))
               | Some func \<Rightarrow>
                   bnd (deref root (p @ [1]) st) (\<lambda>st c1.
                     if length (f_params func) \<noteq> length (n_children c1)
                     then Inr (logError (argCountMismatch func (length (n_children c1))) n st,
                               Some DataType_Invalid)
                     else bnd (checkArgs gdt root p func 0 True st) (\<lambda>st valid.
                            if valid then Inr (st, Some (f_type func))
                            else Inr (st, Some DataType_Invalid)))))))"

definition returnMismatch :: "string \<Rightarrow> string \<Rightarrow> string \<Rightarrow> Piece list" where
  "returnMismatch t name r =
     [Lit ''Type of return value ('', Lit t, Lit '') does not match function '', Lit name,
      Lit [CHR 0x27], Lit ''s return type ('', Lit r, Lit '')'']"

definition typeRule_Return ::
  "GetDataType \<Rightarrow> AstNode \<Rightarrow> NodeRef \<Rightarrow> State \<Rightarrow> string option Res" where
  "typeRule_Return gdt root p st =
     bnd (gdt (p @ [0]) st) (\<lambda>st t.
       (case ancestorOfType root p AstFunctionDef of
          None \<Rightarrow> Inr (st, Some t)
        | Some q \<Rightarrow>
            bnd (deref root q st) (\<lambda>st fd.
              if t \<noteq> tok_value (n_token fd) \<or> tok_value (n_token fd) = DataType_None
              then bnd (deref root (q @ [0]) st) (\<lambda>st nm.
                   bnd (logErrorAt (returnMismatch t (tok_value (n_token nm))
                                      (tok_value (n_token fd))) root (p @ [0]) st)
                     (\<lambda>st u. Inr (st, Some DataType_Invalid)))
              else Inr (st, Some t))))"

definition typeRule_ReturnVoid :: "AstNode \<Rightarrow> NodeRef \<Rightarrow> State \<Rightarrow> string option Res" where
  "typeRule_ReturnVoid root p st =
     (case ancestorOfType root p AstFunctionDef of
        None \<Rightarrow> Inr (st, Some DataType_None)
      | Some q \<Rightarrow>
          bnd (deref root q st) (\<lambda>st fd.
            if tok_value (n_token fd) \<noteq> DataType_None
            then bnd (deref root (q @ [0]) st) (\<lambda>st nm.
                 bnd (logErrorAt (returnMismatch DataType_None (tok_value (n_token nm))
                                    (tok_value (n_token fd))) root (p @ [0]) st)
                   (\<lambda>st u. Inr (st, Some DataType_Invalid)))
            else Inr (st, Some DataType_None)))"

fun runDataTypeRule ::
  "DataTypeRule \<Rightarrow> Analyzer \<Rightarrow> GetDataType \<Rightarrow> AstNode \<Rightarrow> NodeRef \<Rightarrow> State
     \<Rightarrow> string option Res" where
  "runDataTypeRule DataTypeRule_Access A gdt = typeRule_Access gdt"
| "runDataTypeRule DataTypeRule_VariableId A gdt = typeRule_VariableId A"
| "runDataTypeRule DataTypeRule_FunctionId A gdt = typeRule_FunctionId A"
| "runDataTypeRule DataTypeRule_StructId A gdt = typeRule_StructId A"
| "runDataTypeRule DataTypeRule_Type A gdt = typeRule_Type"
| "runDataTypeRule DataTypeRule_VariableDef A gdt = typeRule_VariableDef"
| "runDataTypeRule DataTypeRule_FunctionDef A gdt = typeRule_FunctionDef"
| "runDataTypeRule DataTypeRule_StructDef A gdt = typeRule_StructDef"
| "runDataTypeRule DataTypeRule_Literal A gdt = typeRule_Literal"
| "runDataTypeRule (DataTypeRule_UnaryOp ty typeSets) A gdt = typeRule_UnaryOp ty typeSets gdt"
| "runDataTypeRule (DataTypeRule_BinaryOp ty typeSets) A gdt = typeRule_BinaryOp ty typeSets gdt"
| "runDataTypeRule DataTypeRule_Assignment A gdt = typeRule_Assignment A gdt"
| "runDataTypeRule DataTypeRule_Global A gdt = typeRule_Global gdt"
| "runDataTypeRule DataTypeRule_As A gdt = typeRule_As gdt"
| "runDataTypeRule DataTypeRule_To A gdt = typeRule_To gdt"
| "runDataTypeRule DataTypeRule_FunctionCall A gdt = typeRule_FunctionCall A gdt"
| "runDataTypeRule DataTypeRule_Return A gdt = typeRule_Return gdt"
| "runDataTypeRule DataTypeRule_ReturnVoid A gdt = typeRule_ReturnVoid"

text \<open>\<open>for (let rule of rules) node.dataType = rule(node)\<close>\<close>

fun applyDataTypeRules ::
  "DataTypeRule list \<Rightarrow> Analyzer \<Rightarrow> GetDataType \<Rightarrow> AstNode \<Rightarrow> NodeRef \<Rightarrow> State
     \<Rightarrow> Err + State" where
  "applyDataTypeRules [] A gdt root p st = Inr st"
| "applyDataTypeRules (r # rs) A gdt root p st =
     (case runDataTypeRule r A gdt root p st of
        Inl e \<Rightarrow> Inl e
      | Inr (st1, t) \<Rightarrow> applyDataTypeRules rs A gdt root p (setType p t st1))"

text \<open>
  \<open>getDataType\<close>. The rules reach it only for nodes below the node they type (a child, a
  grandchild in the argument list, the identifier inside a member access) or for
  \<open>undefined\<close>, where it raises; the recursion is on the size of the subtree.
\<close>

function getDataType :: "Analyzer \<Rightarrow> AstNode \<Rightarrow> NodeRef \<Rightarrow> State \<Rightarrow> string Res" where
  "getDataType A root p st =
     (case nodeAt root p of
        None \<Rightarrow> Inl TypeError
      | Some n \<Rightarrow>
          (let st1 = (if \<not> n_valid n then setType p (Some DataType_Invalid) st else st) in
           if truthy (typeAnn st1 p) then Inr (st1, the (typeAnn st1 p))
           else (case (case dataTypeRuleMap A (n_type n) of
                         None \<Rightarrow> Inr st1
                       | Some rules \<Rightarrow>
                           applyDataTypeRules rules A
                             (\<lambda>q s. if strict_prefix p q then getDataType A root q s
                                    else Inl TypeError)
                             root p st1) of
                   Inl e \<Rightarrow> Inl e
                 | Inr st2 \<Rightarrow>
                     if \<not> truthy (typeAnn st2 p)
                     then Inr (setType p (Some DataType_None) st2, DataType_None)
                     else Inr (st2, the (typeAnn st2 p)))))"
  by pat_completeness auto
termination
  by (relation "measure (\<lambda>(A, root, p, st). subtreeSize root p)")
     (auto intro: subtreeSize_strict_prefix)

declare getDataType.simps [simp del]

subsection \<open>The four passes\<close>

function hoistPass :: "Analyzer \<Rightarrow> AstNode \<Rightarrow> NodeRef \<Rightarrow> State \<Rightarrow> Err + State" where
  "hoistPass A root p st =
     (case nodeAt root p of
        None \<Rightarrow> Inl TypeError
      | Some node \<Rightarrow>
          (case getScope A root p st of
             Inl e \<Rightarrow> Inl e
           | Inr (st1, s) \<Rightarrow>
               forEach (\<lambda>i st2.
                          if n_type (n_children node ! i) \<noteq> AstStructDef then Inr st2
                          else hoistPass A root (p @ [i]) st2)
                 [0..<length (n_children node)] (setScope p s st1)))"
  by pat_completeness auto
termination
  by (relation "measure (\<lambda>(A, root, p, st). subtreeSize root p)")
     (auto intro: subtreeSize_descend)

function scopePass :: "Analyzer \<Rightarrow> AstNode \<Rightarrow> NodeRef \<Rightarrow> State \<Rightarrow> Err + State" where
  "scopePass A root p st =
     (case nodeAt root p of
        None \<Rightarrow> Inl TypeError
      | Some node \<Rightarrow>
          (case getScope A root p st of
             Inl e \<Rightarrow> Inl e
           | Inr (st1, s) \<Rightarrow>
               forEach (\<lambda>i st2. scopePass A root (p @ [i]) st2)
                 [0..<length (n_children node)] (setScope p s st1)))"
  by pat_completeness auto
termination
  by (relation "measure (\<lambda>(A, root, p, st). subtreeSize root p)")
     (auto intro: subtreeSize_descend)

function typePass :: "Analyzer \<Rightarrow> AstNode \<Rightarrow> NodeRef \<Rightarrow> State \<Rightarrow> Err + State" where
  "typePass A root p st =
     (case nodeAt root p of
        None \<Rightarrow> Inl TypeError
      | Some node \<Rightarrow>
          (case getDataType A root p st of
             Inl e \<Rightarrow> Inl e
           | Inr (st1, t) \<Rightarrow>
               forEach (\<lambda>i st2. typePass A root (p @ [i]) st2)
                 [0..<length (n_children node)] (setType p (Some t) st1)))"
  by pat_completeness auto
termination
  by (relation "measure (\<lambda>(A, root, p, st). subtreeSize root p)")
     (auto intro: subtreeSize_descend)

function analysisPass :: "Analyzer \<Rightarrow> AstNode \<Rightarrow> NodeRef \<Rightarrow> State \<Rightarrow> Err + State" where
  "analysisPass A root p st =
     (case nodeAt root p of
        None \<Rightarrow> Inl TypeError
      | Some node \<Rightarrow>
          (case (case analysisRuleMap A (n_type node) of
                   None \<Rightarrow> Inr st
                 | Some rules \<Rightarrow> forEach (\<lambda>rule st1. rule root p st1) rules st) of
             Inl e \<Rightarrow> Inl e
           | Inr st2 \<Rightarrow>
               forEach (\<lambda>i st3. analysisPass A root (p @ [i]) st3)
                 [0..<length (n_children node)] st2))"
  by pat_completeness auto
termination
  by (relation "measure (\<lambda>(A, root, p, st). subtreeSize root p)")
     (auto intro: subtreeSize_descend)

declare hoistPass.simps [simp del] scopePass.simps [simp del]
  typePass.simps [simp del] analysisPass.simps [simp del]

text \<open>\<open>analyze(ast)\<close>: the root of the tree is the reference \<open>[]\<close>.\<close>

definition analyze :: "Analyzer \<Rightarrow> AstNode \<Rightarrow> State \<Rightarrow> Err + State" where
  "analyze A ast st =
     (case hoistPass A ast [] st of
        Inl e \<Rightarrow> Inl e
      | Inr st1 \<Rightarrow>
          (case scopePass A ast [] st1 of
             Inl e \<Rightarrow> Inl e
           | Inr st2 \<Rightarrow>
               (case typePass A ast [] st2 of
                  Inl e \<Rightarrow> Inl e
                | Inr st3 \<Rightarrow> analysisPass A ast [] st3)))"

subsection \<open>The analyzers\<close>

text \<open>A new \<open>Analyzer\<close> has three empty rule maps; the \<open>register\<close> methods append to a list.\<close>

definition newAnalyzer :: Analyzer where
  "newAnalyzer = \<lparr> scopeRuleMap = Map.empty, dataTypeRuleMap = Map.empty,
                    analysisRuleMap = Map.empty \<rparr>"

definition push :: "('k \<rightharpoonup> 'r list) \<Rightarrow> 'k \<Rightarrow> 'r \<Rightarrow> ('k \<rightharpoonup> 'r list)" where
  "push m k r = (case m k of None \<Rightarrow> m(k \<mapsto> [r]) | Some rs \<Rightarrow> m(k \<mapsto> rs @ [r]))"

definition registerScope :: "AstType \<Rightarrow> ScopeRule \<Rightarrow> Analyzer \<Rightarrow> Analyzer" where
  "registerScope ty rule A = A\<lparr> scopeRuleMap := push (scopeRuleMap A) ty rule \<rparr>"

definition registerDataType :: "AstType \<Rightarrow> DataTypeRule \<Rightarrow> Analyzer \<Rightarrow> Analyzer" where
  "registerDataType ty rule A = A\<lparr> dataTypeRuleMap := push (dataTypeRuleMap A) ty rule \<rparr>"

definition registerAnalysis :: "AstType \<Rightarrow> AnalyzeRule \<Rightarrow> Analyzer \<Rightarrow> Analyzer" where
  "registerAnalysis ty rule A = A\<lparr> analysisRuleMap := push (analysisRuleMap A) ty rule \<rparr>"

definition registerDataTypeUnaryOp :: "TokenType \<Rightarrow> TypeSet list \<Rightarrow> Analyzer \<Rightarrow> Analyzer" where
  "registerDataTypeUnaryOp ty typeSets =
     registerDataType AstUnaryOp (DataTypeRule_UnaryOp ty typeSets)"

definition registerDataTypeBinaryOp :: "TokenType \<Rightarrow> TypeSet list \<Rightarrow> Analyzer \<Rightarrow> Analyzer" where
  "registerDataTypeBinaryOp ty typeSets =
     registerDataType AstBinaryOp (DataTypeRule_BinaryOp ty typeSets)"

text \<open>
  The constructor of \<open>SchwaAnalyzer\<close>: its registrations, in source order. The calls of
  \<open>registerBuiltinFunc\<close> before them fill the root scope and register no rule; they are
  \<open>schwaBuiltins\<close> below.
\<close>

definition schwaRegistrations :: "(Analyzer \<Rightarrow> Analyzer) list" where
  "schwaRegistrations =
     [registerScope AstProgram ScopeRule_Program,
      registerScope AstBlock ScopeRule_Block,
      registerScope AstStructDef ScopeRule_StructDef,
      registerScope AstFunctionDef ScopeRule_FunctionDef,
      registerScope AstVariableDef ScopeRule_VariableDef,
      registerScope AstAccess ScopeRule_Access,
      registerScope AstConst ScopeRule_Const,
      registerScope AstExport ScopeRule_Export,
      registerDataType AstAccess DataTypeRule_Access,
      registerDataType AstVariableId DataTypeRule_VariableId,
      registerDataType AstFunctionId DataTypeRule_FunctionId,
      registerDataType AstStructId DataTypeRule_StructId,
      registerDataType AstType DataTypeRule_Type,
      registerDataType AstVariableDef DataTypeRule_VariableDef,
      registerDataType AstFunctionDef DataTypeRule_FunctionDef,
      registerDataType AstStructDef DataTypeRule_StructDef,
      registerDataType AstLiteral DataTypeRule_Literal,
      registerDataTypeUnaryOp TkNeg signedTypeSets,
      registerDataTypeUnaryOp TkNOT fixedTypeSets,
      registerDataTypeUnaryOp TkNot [boolTypeSet],
      registerDataTypeBinaryOp TkAdd numberTypeSets,
      registerDataTypeBinaryOp TkSub numberTypeSets,
      registerDataTypeBinaryOp TkMul numberTypeSets,
      registerDataTypeBinaryOp TkDiv numberTypeSets,
      registerDataTypeBinaryOp TkMod fixedTypeSets,
      registerDataTypeBinaryOp TkAND fixedTypeSets,
      registerDataTypeBinaryOp TkOR fixedTypeSets,
      registerDataTypeBinaryOp TkXOR fixedTypeSets,
      registerDataTypeBinaryOp TkNOT fixedTypeSets,
      registerDataTypeBinaryOp TkShL fixedTypeSets,
      registerDataTypeBinaryOp TkShR fixedTypeSets,
      registerDataTypeBinaryOp TkRotL fixedTypeSets,
      registerDataTypeBinaryOp TkRotR fixedTypeSets,
      registerDataTypeBinaryOp TkEq (compareSets @ [boolTypeSet]),
      registerDataTypeBinaryOp TkNe (compareSets @ [boolTypeSet]),
      registerDataTypeBinaryOp TkLt compareSets,
      registerDataTypeBinaryOp TkLe compareSets,
      registerDataTypeBinaryOp TkGt compareSets,
      registerDataTypeBinaryOp TkGe compareSets,
      registerDataTypeBinaryOp TkAnd [boolTypeSet],
      registerDataTypeBinaryOp TkOr [boolTypeSet],
      registerDataType AstAssignment DataTypeRule_Assignment,
      registerDataType AstGlobal DataTypeRule_Global,
      registerDataType AstBinaryOp DataTypeRule_As,
      registerDataType AstBinaryOp DataTypeRule_To,
      registerDataType AstFunctionCall DataTypeRule_FunctionCall,
      registerDataType AstReturn DataTypeRule_Return,
      registerDataType AstReturnVoid DataTypeRule_ReturnVoid]"

definition SchwaAnalyzer :: Analyzer where
  "SchwaAnalyzer = fold (\<lambda>register A. register A) schwaRegistrations newAnalyzer"

subsection \<open>The builtin functions\<close>

text \<open>\<open>path.split('.')\<close>: the pieces between the dots; never an empty list.\<close>

fun splitOn :: "char \<Rightarrow> string \<Rightarrow> string list" where
  "splitOn c [] = [[]]"
| "splitOn c (x # xs) =
     (if x = c then [] # splitOn c xs
      else (case splitOn c xs of [] \<Rightarrow> [[x]] | y # ys \<Rightarrow> (x # y) # ys))"

text \<open>The scope that the prefix of a path names under the root, created where missing.\<close>

fun builtinScope :: "string list \<Rightarrow> Scope \<Rightarrow> State \<Rightarrow> State \<times> Scope" where
  "builtinScope [] scope st = (st, scope)"
| "builtinScope (part # parts) scope st =
     (case scopes (store st (s_addr scope)) part of
        Some s \<Rightarrow> builtinScope parts s st
      | None \<Rightarrow>
          (case newScope None scope part st of
             (st1, s) \<Rightarrow>
               builtinScope parts s
                 (updMaps (s_addr scope) (\<lambda>m. m\<lparr> scopes := (scopes m)(part \<mapsto> s) \<rparr>) st1)))"

text \<open>
  \<open>registerBuiltinFunc\<close>. The parameter loop runs over the parameter types and takes the
  name at the same index; every call of the constructor gives at least as many names
  as types.
\<close>

definition registerBuiltinFunc ::
  "string \<Rightarrow> string \<Rightarrow> string list \<Rightarrow> string list \<Rightarrow> State \<Rightarrow> State" where
  "registerBuiltinFunc path ty paramTypes paramNames st =
     (let parts = splitOn CHR ''.'' path;
          i = last parts
      in case builtinScope (butlast parts) rootScope st of
           (st1, scope) \<Rightarrow>
             (let params = map (\<lambda>(pty, pname). newVariable None scope pname pty)
                             (zip paramTypes paramNames)
              in if i \<noteq> []
                 then updMaps (s_addr scope)
                        (\<lambda>m. m\<lparr> funcs := (funcs m)(i \<mapsto> newFunction None scope i ty params) \<rparr>)
                        st1
                 else st1))"

text \<open>The calls of \<open>registerBuiltinFunc\<close> in the constructor of \<open>SchwaAnalyzer\<close>, in source order.\<close>

definition schwaBuiltins :: "(string \<times> string \<times> string list \<times> string list) list" where
  "schwaBuiltins =
     [(''nop'', DataType_None, [], []),
      (''int.loadSByte'', DataType_Int, [DataType_UInt], [''addr'']),
      (''int.loadShort'', DataType_Int, [DataType_UInt], [''addr'']),
      (''int.load'', DataType_Int, [DataType_UInt], [''addr'']),
      (''int.storeSByte'', DataType_None, [DataType_UInt, DataType_Int], [''addr'', ''val'']),
      (''int.storeShort'', DataType_None, [DataType_UInt, DataType_Int], [''addr'', ''val'']),
      (''int.store'', DataType_None, [DataType_UInt, DataType_Int], [''addr'', ''val'']),
      (''uint.loadByte'', DataType_UInt, [DataType_UInt], [''addr'']),
      (''uint.loadUShort'', DataType_UInt, [DataType_UInt], [''addr'']),
      (''uint.load'', DataType_UInt, [DataType_UInt], [''addr'']),
      (''uint.storeByte'', DataType_None, [DataType_UInt, DataType_UInt], [''addr'', ''val'']),
      (''uint.storeUShort'', DataType_None, [DataType_UInt, DataType_UInt], [''addr'', ''val'']),
      (''uint.store'', DataType_None, [DataType_UInt, DataType_UInt], [''addr'', ''val'']),
      (''long.loadSByte'', DataType_Long, [DataType_UInt], [''addr'']),
      (''long.loadShort'', DataType_Long, [DataType_UInt], [''addr'']),
      (''long.loadInt'', DataType_Long, [DataType_UInt], [''addr'']),
      (''long.load'', DataType_Long, [DataType_UInt], [''addr'']),
      (''long.storeSByte'', DataType_None, [DataType_UInt, DataType_Long], [''addr'', ''val'']),
      (''long.storeShort'', DataType_None, [DataType_UInt, DataType_Long], [''addr'', ''val'']),
      (''long.storeInt'', DataType_None, [DataType_UInt, DataType_Long], [''addr'', ''val'']),
      (''long.store'', DataType_None, [DataType_UInt, DataType_Long], [''addr'', ''val'']),
      (''ulong.loadByte'', DataType_ULong, [DataType_UInt], [''addr'']),
      (''ulong.loadUShort'', DataType_ULong, [DataType_UInt], [''addr'']),
      (''ulong.loadUInt'', DataType_ULong, [DataType_UInt], [''addr'']),
      (''ulong.load'', DataType_ULong, [DataType_UInt], [''addr'']),
      (''ulong.storeByte'', DataType_None, [DataType_UInt, DataType_ULong], [''addr'', ''val'']),
      (''ulong.storeUShort'', DataType_None, [DataType_UInt, DataType_ULong], [''addr'', ''val'']),
      (''ulong.storeUInt'', DataType_None, [DataType_UInt, DataType_ULong], [''addr'', ''val'']),
      (''ulong.store'', DataType_None, [DataType_UInt, DataType_ULong], [''addr'', ''val'']),
      (''float.load'', DataType_Float, [DataType_UInt], [''addr'']),
      (''float.store'', DataType_None, [DataType_UInt, DataType_Float], [''addr'', ''val'']),
      (''double.load'', DataType_Double, [DataType_UInt], [''addr'', ''val'']),
      (''double.store'', DataType_None, [DataType_UInt, DataType_Double], [''addr'', ''val'']),
      (''int.clz'', DataType_Int, [DataType_Int], [''n'']),
      (''int.ctz'', DataType_Int, [DataType_Int], [''n'']),
      (''int.popcnt'', DataType_Int, [DataType_Int], [''n'']),
      (''int.eqz'', DataType_Int, [DataType_Int], [''n'']),
      (''uint.clz'', DataType_UInt, [DataType_UInt], [''n'']),
      (''uint.ctz'', DataType_UInt, [DataType_UInt], [''n'']),
      (''uint.popcnt'', DataType_UInt, [DataType_UInt], [''n'']),
      (''uint.eqz'', DataType_UInt, [DataType_UInt], [''n'']),
      (''long.clz'', DataType_Long, [DataType_Long], [''n'']),
      (''long.ctz'', DataType_Long, [DataType_Long], [''n'']),
      (''long.popcnt'', DataType_Long, [DataType_Long], [''n'']),
      (''long.eqz'', DataType_Long, [DataType_Long], [''n'']),
      (''ulong.clz'', DataType_ULong, [DataType_ULong], [''n'']),
      (''ulong.ctz'', DataType_ULong, [DataType_ULong], [''n'']),
      (''ulong.popcnt'', DataType_ULong, [DataType_ULong], [''n'']),
      (''ulong.eqz'', DataType_ULong, [DataType_ULong], [''n'']),
      (''float.abs'', DataType_Float, [DataType_Float], [''n'']),
      (''float.ceil'', DataType_Float, [DataType_Float], [''n'']),
      (''float.floor'', DataType_Float, [DataType_Float], [''n'']),
      (''float.truncate'', DataType_Float, [DataType_Float], [''n'']),
      (''float.round'', DataType_Float, [DataType_Float], [''n'']),
      (''float.sqrt'', DataType_Float, [DataType_Float], [''n'']),
      (''float.copysign'', DataType_Float, [DataType_Float, DataType_Float], [''a'', ''b'']),
      (''float.min'', DataType_Float, [DataType_Float, DataType_Float], [''a'', ''b'']),
      (''float.max'', DataType_Float, [DataType_Float, DataType_Float], [''a'', ''b'']),
      (''double.abs'', DataType_Double, [DataType_Double], [''n'']),
      (''double.ceil'', DataType_Double, [DataType_Double], [''n'']),
      (''double.floor'', DataType_Double, [DataType_Double], [''n'']),
      (''double.truncate'', DataType_Double, [DataType_Double], [''n'']),
      (''double.round'', DataType_Double, [DataType_Double], [''n'']),
      (''double.sqrt'', DataType_Double, [DataType_Double], [''n'']),
      (''double.copysign'', DataType_Double, [DataType_Double, DataType_Double], [''a'', ''b'']),
      (''double.min'', DataType_Double, [DataType_Double, DataType_Double], [''a'', ''b'']),
      (''double.max'', DataType_Double, [DataType_Double, DataType_Double], [''a'', ''b''])]"

text \<open>The state of a new \<open>SchwaAnalyzer\<close>: the root scope holds the builtin functions.\<close>

definition schwaState :: State where
  "schwaState =
     fold (\<lambda>(path, ty, paramTypes, paramNames). registerBuiltinFunc path ty paramTypes paramNames)
       schwaBuiltins initState"

section \<open>Vocabulary of the properties\<close>

text \<open>
  \<open>below A root p\<close> is \<open>getDataType\<close> as the rules of the node \<open>p\<close> reach it (the
  function that the definition of \<open>getDataType\<close> hands to the rules).
\<close>

definition below :: "Analyzer \<Rightarrow> AstNode \<Rightarrow> NodeRef \<Rightarrow> GetDataType" where
  "below A root p = (\<lambda>q s. if strict_prefix p q then getDataType A root q s else Inl TypeError)"

text \<open>
  \<open>ext W st st'\<close>: the state \<open>st'\<close> extends \<open>st\<close>. Data types are unchanged outside the
  nodes \<open>W\<close>, no scope annotation is lost, the logger has only grown, and every symbol
  that a scope allocated in \<open>st\<close> holds is still held, unchanged, in \<open>st'\<close>.
\<close>

definition ext :: "(NodeRef \<Rightarrow> bool) \<Rightarrow> State \<Rightarrow> State \<Rightarrow> bool" where
  "ext W st st' =
     ((\<forall>r. \<not> W r \<longrightarrow> typeAnn st' r = typeAnn st r)
      \<and> dom (scopeAnn st) \<subseteq> dom (scopeAnn st')
      \<and> prefix (logger st) (logger st')
      \<and> next_addr st \<le> next_addr st'
      \<and> (\<forall>a. a < next_addr st \<longrightarrow>
            vars (store st a) \<subseteq>\<^sub>m vars (store st' a)
          \<and> funcs (store st a) \<subseteq>\<^sub>m funcs (store st' a)
          \<and> structs (store st a) \<subseteq>\<^sub>m structs (store st' a)))"

text \<open>\<open>logsOnly st st'\<close>: \<open>st'\<close> is \<open>st\<close> with more messages in the logger.\<close>

definition logsOnly :: "State \<Rightarrow> State \<Rightarrow> bool" where
  "logsOnly st st' = (\<exists>l. st' = st\<lparr> logger := logger st @ l \<rparr>)"

text \<open>\<open>sameBut a0 s s'\<close>: only the maps of the scope at \<open>a0\<close> and the logger have changed.\<close>

definition sameBut :: "nat \<Rightarrow> State \<Rightarrow> State \<Rightarrow> bool" where
  "sameBut a0 s s' =
     (typeAnn s' = typeAnn s \<and> scopeAnn s' = scopeAnn s \<and> prefix (logger s) (logger s')
      \<and> next_addr s' = next_addr s \<and> (\<forall>a. a \<noteq> a0 \<longrightarrow> store s' a = store s a))"

text \<open>What the proofs about a type rule of the node \<open>p\<close> assume of its \<open>gdt\<close>.\<close>

definition gdtOK :: "NodeRef \<Rightarrow> GetDataType \<Rightarrow> bool" where
  "gdtOK p gdt = (\<forall>q s s' t. gdt q s = Inr (s', t) \<longrightarrow> ext (strict_prefix p) s s')"

text \<open>
  A node is typed when its data type is a non-empty string, and \<open>invalid\<close> if the
  validator marked the node invalid; a tree is annotated when every node of it has a
  scope and is typed.
\<close>

definition typed :: "AstNode \<Rightarrow> State \<Rightarrow> NodeRef \<Rightarrow> bool" where
  "typed root st q =
     (truthy (typeAnn st q)
      \<and> (\<forall>n. nodeAt root q = Some n \<longrightarrow> \<not> n_valid n \<longrightarrow> typeAnn st q = Some DataType_Invalid))"

definition annotated :: "AstNode \<Rightarrow> State \<Rightarrow> bool" where
  "annotated root st =
     (\<forall>q. nodeAt root q \<noteq> None \<longrightarrow> scopeAnn st q \<noteq> None \<and> typed root st q)"





section \<open>Example inputs\<close>

text \<open>
  A struct that refers to itself, \<open>struct List { List next; int head }\<close>, declared in the
  root scope, and variables of that type and of type \<open>bool\<close>.
\<close>

definition ex_list_scope :: Scope where
  "ex_list_scope = Scope 1 None (Some rootScope) ''List''"

definition ex_list_struct :: Struct where
  "ex_list_struct = newStruct None ex_list_scope ''List''
     [newVariable None ex_list_scope ''next'' ''List'',
      newVariable None ex_list_scope ''head'' DataType_Int]"

definition ex_list_state :: State where
  "ex_list_state =
     initState\<lparr> store := (\<lambda>a. emptyMaps)(0 := emptyMaps\<lparr> structs := [''List'' \<mapsto> ex_list_struct] \<rparr>),
                next_addr := 2 \<rparr>"

definition ex_list_var :: Variable where
  "ex_list_var = newVariable None rootScope ''xs'' ''List''"

definition ex_bool_var :: Variable where
  "ex_bool_var = newVariable None rootScope ''b'' DataType_Bool"

definition ex_void_var :: Variable where
  "ex_void_var = newVariable None rootScope ''u'' DataType_None"

text \<open>Tokens and leaves of the example trees.\<close>

definition mkToken :: "TokenType \<Rightarrow> string \<Rightarrow> Token" where
  "mkToken ty v = \<lparr> tok_type = ty, tok_value = v, tok_row = 0, tok_column = 0 \<rparr>"

definition leaf :: "AstType \<Rightarrow> TokenType \<Rightarrow> string \<Rightarrow> AstNode" where
  "leaf kind ty v = AstNode kind (mkToken ty v) [] True"




text \<open>The program \<open>int x = 1.5\<close>.\<close>

definition ex_program :: AstNode where
  "ex_program = AstNode AstProgram (mkToken TkNone '''')
     [AstNode AstGlobal (mkToken TkAssign ''='')
        [AstNode AstVariableDef (mkToken TkType ''int'') [leaf AstVariableId TkName ''x''] True,
         leaf AstLiteral TkDouble ''1.5''] True] True"











lemmas ex_defs =
  ex_list_scope_def ex_list_struct_def ex_list_state_def ex_list_var_def ex_bool_var_def
  ex_void_var_def rootScope_def initState_def newVariable_def newStruct_def emptyMaps_def

section \<open>Properties\<close>

subsection \<open>Frames of the rules and of the passes\<close>

lemma bnd_simps [simp]: "bnd (Inl e) f = Inl e" "bnd (Inr (s, x)) f = f s x"
  by (simp_all add: bnd_def)

lemma bnd_Inr:
  "bnd m f = Inr r \<Longrightarrow> (\<And>s x. m = Inr (s, x) \<Longrightarrow> f s x = Inr r \<Longrightarrow> P) \<Longrightarrow> P"
  by (cases m) (auto simp: bnd_def)

lemma deref_Some [simp]: "nodeAt root q = Some n \<Longrightarrow> deref root q st = Inr (st, n)"
  by (simp add: deref_def)

lemma deref_Inr: "deref root q st = Inr (s, n) \<Longrightarrow> s = st \<and> nodeAt root q = Some n"
  by (auto simp: deref_def split: option.splits)

lemma logErrorAt_Some [simp]:
  "nodeAt root q = Some n \<Longrightarrow> logErrorAt msg root q st = Inr (logError msg n st, ())"
  by (simp add: logErrorAt_def)

lemma logErrorAt_Inr:
  "logErrorAt msg root q st = Inr (s, u) \<Longrightarrow> \<exists>n. nodeAt root q = Some n \<and> s = logError msg n st"
  by (auto simp: logErrorAt_def split: option.splits)

lemma liftE_Inr: "liftE r st = Inr (s, x) \<Longrightarrow> s = st \<and> r = Inr x"
  by (auto simp: liftE_def split: sum.splits)

lemma ext_refl [simp]: "ext W st st"
  by (simp add: ext_def)

lemma ext_trans:
  assumes "ext W st st1" and "ext W st1 st2"
  shows "ext W st st2"
proof -
  have 1: "\<forall>r. \<not> W r \<longrightarrow> typeAnn st2 r = typeAnn st r"
    using assms by (simp add: ext_def)
  have 2: "dom (scopeAnn st) \<subseteq> dom (scopeAnn st2)"
    using assms unfolding ext_def by blast
  have 3: "prefix (logger st) (logger st2)"
    using assms unfolding ext_def by (meson prefix_order.order_trans)
  have 4: "next_addr st \<le> next_addr st2"
    using assms unfolding ext_def by linarith
  have 5: "vars (store st a) \<subseteq>\<^sub>m vars (store st2 a)
          \<and> funcs (store st a) \<subseteq>\<^sub>m funcs (store st2 a)
          \<and> structs (store st a) \<subseteq>\<^sub>m structs (store st2 a)" if a: "a < next_addr st" for a
  proof -
    from a assms(1) have "a < next_addr st1" unfolding ext_def by linarith
    with a assms show ?thesis unfolding ext_def by (meson map_le_trans)
  qed
  from 1 2 3 4 5 show ?thesis unfolding ext_def by blast
qed

lemma ext_mono: "ext W st st' \<Longrightarrow> (\<And>r. W r \<Longrightarrow> W' r) \<Longrightarrow> ext W' st st'"
  unfolding ext_def by auto

lemma ext_logError [simp]: "ext W st (logError msg n st)"
  by (simp add: ext_def logError_def)

lemma ext_setScope [simp]: "ext W st (setScope p s st)"
  by (auto simp add: ext_def setScope_def)

lemma ext_setType: "W p \<Longrightarrow> ext W st (setType p t st)"
  by (auto simp add: ext_def setType_def)

lemma ext_newScope: "newScope n par i st = (st1, sc) \<Longrightarrow> ext W st st1"
  by (auto simp add: ext_def newScope_def)

lemma ext_alloc [simp]:
  "ext W st (st\<lparr> store := (store st)(next_addr st := m), next_addr := Suc (next_addr st) \<rparr>)"
  by (auto simp add: ext_def)

lemma ext_updMaps_scopes [simp]:
  "ext W st (updMaps a (\<lambda>m. m\<lparr> scopes := f m \<rparr>) st)"
  by (auto simp add: ext_def updMaps_def)

lemma ext_updMaps_vars:
  "vars (store st a) k = None \<Longrightarrow>
   ext W st (updMaps a (\<lambda>m. m\<lparr> vars := (vars m)(k \<mapsto> v) \<rparr>) st)"
  by (auto simp add: ext_def updMaps_def map_le_def)

lemma ext_updMaps_funcs:
  "funcs (store st a) k = None \<Longrightarrow>
   ext W st (updMaps a (\<lambda>m. m\<lparr> funcs := (funcs m)(k \<mapsto> v) \<rparr>) st)"
  by (auto simp add: ext_def updMaps_def map_le_def)

lemma ext_updMaps_structs:
  "structs (store st a) k = None \<Longrightarrow>
   ext W st (updMaps a (\<lambda>m. m\<lparr> structs := (structs m)(k \<mapsto> v) \<rparr>) st)"
  by (auto simp add: ext_def updMaps_def map_le_def)

text \<open>getSize only appends to the logger.\<close>

lemma logsOnly_refl [simp]: "logsOnly st st"
  by (auto simp: logsOnly_def intro: exI [of _ "[]"])

lemma logsOnly_trans: "logsOnly st st1 \<Longrightarrow> logsOnly st1 st2 \<Longrightarrow> logsOnly st st2"
  by (auto simp: logsOnly_def)

lemma logsOnly_logError [simp]: "logsOnly st (logError msg n st)"
  by (auto simp: logsOnly_def logError_def)

lemma logsOnly_store: "logsOnly st st' \<Longrightarrow> store st' = store st"
  by (auto simp: logsOnly_def)

lemma fold_logsOnly:
  assumes "\<And>field s. field \<in> set fs \<Longrightarrow> logsOnly s (fst (g field s))"
  shows "logsOnly st (fst (fold (\<lambda>field (s, size :: int).
           (case g field s of (s', n) \<Rightarrow> (s', size + n))) fs (st, acc)))"
  using assms
proof (induction fs arbitrary: st acc)
  case Nil
  then show ?case by simp
next
  case (Cons f fs)
  obtain s' n where g: "g f st = (s', n)" by (cases "g f st")
  have 1: "logsOnly st s'" using Cons.prems [of f st] g by simp
  have 2: "logsOnly s' (fst (fold (\<lambda>field (s, size).
           (case g field s of (s', n) \<Rightarrow> (s', size + n))) fs (s', acc + n)))"
    by (rule Cons.IH) (use Cons.prems in auto)
  from logsOnly_trans [OF 1 2] show ?case by (simp add: g)
qed

lemma getSize_logsOnly: "logsOnly st (fst (getSize v p depth st))"
proof (induction v p depth st rule: getSize.induct)
  case (1 v p depth st)
  show ?case
  proof (cases "getStruct (store st) p (v_type v)")
    case None
    then show ?thesis
      by (simp add: getSize.simps [of v p depth st] split: option.splits)
  next
    case (Some struct)
    show ?thesis
    proof (cases "depth > MAX_TYPE_DEPTH \<or> isPrimitive (v_type v)")
      case True
      then show ?thesis
        by (auto simp add: getSize.simps [of v p depth st])
    next
      case False
      have prim: "\<not> (v_type v = DataType_Int \<or> v_type v = DataType_UInt
              \<or> v_type v = DataType_Float \<or> v_type v = DataType_Bool)"
        "\<not> (v_type v = DataType_Long \<or> v_type v = DataType_ULong
              \<or> v_type v = DataType_Double)"
        using False by (auto simp: isPrimitive_def)
      have ih: "\<And>field s. field \<in> set (st_fields struct) \<Longrightarrow>
          logsOnly s (fst (getSize field (v_scope field) (depth + 1) s))"
        using "1.IH" False prim Some by blast
      have "logsOnly st (fst (fold (\<lambda>field (s, size).
                (case getSize field (v_scope field) (depth + 1) s of
                   (s', n) \<Rightarrow> (s', size + n))) (st_fields struct) (st, 0)))"
        by (rule fold_logsOnly [where g = "\<lambda>field s. getSize field (v_scope field) (depth + 1) s"])
           (use ih in auto)
      then show ?thesis
        using False prim Some by (simp add: getSize.simps [of v p depth st])
    qed
  qed
qed

lemma sameBut_refl [simp]: "sameBut a0 s s"
  by (simp add: sameBut_def)

lemma sameBut_trans: "sameBut a0 s s1 \<Longrightarrow> sameBut a0 s1 s2 \<Longrightarrow> sameBut a0 s s2"
  unfolding sameBut_def by (auto intro: prefix_order.order_trans)

lemma sameBut_updMaps [simp]: "sameBut a0 s (updMaps a0 f s)"
  by (simp add: sameBut_def updMaps_def)

lemma sameBut_logsOnly: "logsOnly s s' \<Longrightarrow> sameBut a0 s s'"
  by (auto simp: sameBut_def logsOnly_def)

lemma fold_sameBut:
  assumes "\<And>field s off. sameBut a0 s (fst (h field (s, off)))"
  shows "sameBut a0 st (fst (fold h fs (st, off)))"
proof (induction fs arbitrary: st off)
  case Nil
  then show ?case by simp
next
  case (Cons f fs)
  obtain s1 off1 where h: "h f (st, off) = (s1, off1)" by (cases "h f (st, off)")
  have "sameBut a0 st s1" using assms [of st f off] h by simp
  moreover have "sameBut a0 s1 (fst (fold h fs (s1, off1)))" by (rule Cons.IH)
  ultimately show ?case using h by (auto intro: sameBut_trans)
qed

lemma ext_sameBut:
  assumes "ext W st st2" and "sameBut a0 st2 s" and "next_addr st \<le> a0"
  shows "ext W st s"
proof -
  have "store s a = store st2 a" if "a < next_addr st" for a
    using that assms(2,3) by (simp add: sameBut_def)
  then show ?thesis
    using assms(1,2) unfolding ext_def sameBut_def
    by (auto intro: prefix_order.order_trans)
qed

lemma makeStructScope_ext: "ext W st (makeStructScope v p st)"
proof (cases "isPrimitive (v_type v)")
  case True
  then show ?thesis by (simp add: makeStructScope_def)
next
  case False
  show ?thesis
  proof (cases "getStruct (store st) p (v_type v)")
    case None
    then show ?thesis using False
      by (simp add: makeStructScope_def split: option.splits)
  next
    case (Some struct)
    obtain st1 scope where ns: "newScope (v_node v) p (v_id v) st = (st1, scope)"
      by (cases "newScope (v_node v) p (v_id v) st")
    then have a0: "s_addr scope = next_addr st" by (auto simp: newScope_def)
    define st2 where "st2 = updMaps (s_addr p)
                             (\<lambda>m. m\<lparr> scopes := (scopes m)(s_id scope \<mapsto> scope) \<rparr>) st1"
    define h :: "Variable \<Rightarrow> State \<times> number \<Rightarrow> State \<times> number"
      where "h = (\<lambda>field (s, offset).
                            (let nvar = (newVariable None scope (v_id field) (v_type field))
                                          \<lparr> v_const := v_const v, v_export := v_export v,
                                            v_mapped := v_mapped v, v_offset := offset \<rparr>;
                                 s1 = updMaps (s_addr scope)
                                        (\<lambda>m. m\<lparr> vars := (vars m)(v_id nvar \<mapsto> nvar) \<rparr>) s
                             in case getSize nvar scope 0 s1 of
                                  (s2, n) \<Rightarrow> (s2, addNumber offset n)))"
    have "ext W st st1" using ns by (rule ext_newScope)
    then have e2: "ext W st st2" unfolding st2_def by (rule ext_trans) simp
    have step: "sameBut (s_addr scope) s (fst (h field (s, off)))" for field s off
    proof -
      let ?nvar = "(newVariable None scope (v_id field) (v_type field))
                     \<lparr> v_const := v_const v, v_export := v_export v,
                       v_mapped := v_mapped v, v_offset := off \<rparr>"
      let ?s1 = "updMaps (s_addr scope) (\<lambda>m. m\<lparr> vars := (vars m)(v_id ?nvar \<mapsto> ?nvar) \<rparr>) s"
      have "sameBut (s_addr scope) s ?s1" by simp
      moreover have "sameBut (s_addr scope) ?s1 (fst (getSize ?nvar scope 0 ?s1))"
        by (rule sameBut_logsOnly) (rule getSize_logsOnly)
      ultimately have "sameBut (s_addr scope) s (fst (getSize ?nvar scope 0 ?s1))"
        by (rule sameBut_trans)
      then show ?thesis
        by (simp add: h_def Let_def case_prod_beta)
    qed
    have "sameBut (s_addr scope) st2 (fst (fold h (st_fields struct) (st2, v_offset v)))"
      by (rule fold_sameBut) (rule step)
    with e2 have "ext W st (fst (fold h (st_fields struct) (st2, v_offset v)))"
      by (rule ext_sameBut) (simp add: a0)
    then show ?thesis using False Some ns
      by (simp add: makeStructScope_def h_def st2_def)
  qed
qed

lemma leftmost_None [simp]: "leftmost root q = None"
  by (induction root q rule: leftmost.induct)
     (simp add: leftmost.simps split: option.splits)

lemma declaredLeaf_None [simp]: "declaredLeaf root p = None"
  by (simp add: declaredLeaf_def split: option.splits)

lemma variableFlags_state: "variableFlags root p nvar st = Inr (st', v) \<Longrightarrow> st' = st \<and> v_id v = v_id nvar"
  by (auto simp: variableFlags_def Let_def split: option.splits if_splits
           elim!: bnd_Inr dest!: deref_Inr)

lemma ext_then_scopes:
  "ext W st s \<Longrightarrow> ext W st (updMaps a (\<lambda>m. m\<lparr> scopes := f m \<rparr>) s)"
  by (erule ext_trans) simp

lemma ext_then_logError: "ext W st s \<Longrightarrow> ext W st (logError msg n s)"
  by (erule ext_trans) simp

lemma ext_then_setScope: "ext W st s \<Longrightarrow> ext W st (setScope p sc s)"
  by (erule ext_trans) simp

lemma ext_then_setType: "ext W st s \<Longrightarrow> W p \<Longrightarrow> ext W st (setType p t s)"
  by (erule ext_trans) (rule ext_setType)

lemma ext_then_vars:
  "ext W st s \<Longrightarrow> vars (store s a) k = None \<Longrightarrow>
   ext W st (updMaps a (\<lambda>m. m\<lparr> vars := (vars m)(k \<mapsto> v) \<rparr>) s)"
  by (erule ext_trans) (rule ext_updMaps_vars)

lemma ext_then_funcs:
  "ext W st s \<Longrightarrow> funcs (store s a) k = None \<Longrightarrow>
   ext W st (updMaps a (\<lambda>m. m\<lparr> funcs := (funcs m)(k \<mapsto> v) \<rparr>) s)"
  by (erule ext_trans) (rule ext_updMaps_funcs)

lemma ext_then_structs:
  "ext W st s \<Longrightarrow> structs (store s a) k = None \<Longrightarrow>
   ext W st (updMaps a (\<lambda>m. m\<lparr> structs := (structs m)(k \<mapsto> v) \<rparr>) s)"
  by (erule ext_trans) (rule ext_updMaps_structs)

lemma ext_then_makeStructScope: "ext W st s \<Longrightarrow> ext W st (makeStructScope v p s)"
  by (erule ext_trans) (rule makeStructScope_ext)

lemmas ext_then = ext_then_scopes ext_then_logError ext_then_setScope ext_then_makeStructScope

lemma structs_updMaps_scopes [simp]:
  "structs (store (updMaps a (\<lambda>m. m\<lparr> scopes := f m \<rparr>) s) b) = structs (store s b)"
  "funcs (store (updMaps a (\<lambda>m. m\<lparr> scopes := f m \<rparr>) s) b) = funcs (store s b)"
  "vars (store (updMaps a (\<lambda>m. m\<lparr> scopes := f m \<rparr>) s) b) = vars (store s b)"
  by (simp_all add: updMaps_def)

lemma runScopeRule_ext:
  assumes "runScopeRule r root p par st = Inr (st', s)"
  shows "ext W st st'"
proof (cases r)
  case ScopeRule_Program
  with assms show ?thesis
    by (auto simp: scopeRule_Program_def newScope_def elim!: bnd_Inr dest!: deref_Inr
             intro!: ext_then)
next
  case ScopeRule_Block
  with assms show ?thesis
    by (auto simp: scopeRule_Block_def newScope_def elim!: bnd_Inr dest!: deref_Inr
             intro!: ext_then)
next
  case ScopeRule_StructDef
  with assms show ?thesis
    by (auto simp: scopeRule_StructDef_def Let_def newScope_def split: option.splits
             elim!: bnd_Inr dest!: deref_Inr liftE_Inr
             intro!: ext_then ext_then_structs)
next
  case ScopeRule_FunctionDef
  with assms show ?thesis
    by (auto simp: scopeRule_FunctionDef_def Let_def newScope_def split: option.splits
             elim!: bnd_Inr dest!: deref_Inr liftE_Inr
             intro!: ext_then ext_then_funcs)
next
  case ScopeRule_VariableDef
  with assms show ?thesis
    by (auto simp: scopeRule_VariableDef_def Let_def newVariable_def split: option.splits
             elim!: bnd_Inr dest!: deref_Inr variableFlags_state
             intro!: ext_then ext_updMaps_vars)
next
  case ScopeRule_Access
  with assms show ?thesis
    by (auto simp: scopeRule_Access_def Let_def split: option.splits
             elim!: bnd_Inr dest!: deref_Inr
             intro!: ext_then makeStructScope_ext)
next
  case ScopeRule_Const
  with assms show ?thesis by (simp add: scopeRule_Const_def)
next
  case ScopeRule_Export
  with assms show ?thesis by (simp add: scopeRule_Export_def)
qed

lemma applyScopeRules_ext:
  "applyScopeRules rs root p par st = Inr st' \<Longrightarrow> ext W st st'"
proof (induction rs arbitrary: st)
  case Nil
  then show ?case by simp
next
  case (Cons r rs)
  from Cons.prems obtain st1 s where r: "runScopeRule r root p par st = Inr (st1, s)"
    and rest: "applyScopeRules rs root p par (setScope p s st1) = Inr st'"
    by (auto split: sum.splits)
  have "ext W st (setScope p s st1)"
    using runScopeRule_ext [OF r] by (rule ext_then_setScope)
  with Cons.IH [OF rest] show ?case by (rule ext_trans [rotated])
qed

lemma scopeAnn_setScope [simp]: "scopeAnn (setScope p s st) p = Some s"
  by (simp add: setScope_def)

lemma getScope_ext:
  "getScope A root p st = Inr (st', s) \<Longrightarrow> ext W st st' \<and> scopeAnn st' p = Some s"
proof (induction A root p st arbitrary: st' s rule: getScope.induct)
  case (1 A root p st)
  from "1.prems" obtain n where n: "nodeAt root p = Some n"
    by (auto simp: getScope.simps [of A root p st] split: option.splits)
  show ?case
  proof (cases "scopeAnn st p")
    case (Some s0)
    with "1.prems" n show ?thesis by (simp add: getScope.simps [of A root p st])
  next
    case None
    define m1 where "m1 = (if p = [] then Inr (st, rootScope)
                           else getScope A root (butlast p) st)"
    from "1.prems" n None have eq1:
      "(case m1 of Inl e \<Rightarrow> Inl e
        | Inr (st1, parentScope) \<Rightarrow>
            (case (case scopeRuleMap A (n_type n) of None \<Rightarrow> Inr st1
                   | Some rules \<Rightarrow> applyScopeRules rules root p parentScope st1) of
               Inl e \<Rightarrow> Inl e
             | Inr st2 \<Rightarrow>
                 (case scopeAnn st2 p of
                    None \<Rightarrow> Inr (setScope p parentScope st2, parentScope)
                  | Some s \<Rightarrow> Inr (st2, s)))) = Inr (st', s)"
      by (simp add: getScope.simps [of A root p st] m1_def)
    then obtain st1 parentScope where par: "m1 = Inr (st1, parentScope)"
      by (cases m1) auto
    define m2 where "m2 = (case scopeRuleMap A (n_type n) of None \<Rightarrow> Inr st1
                   | Some rules \<Rightarrow> applyScopeRules rules root p parentScope st1)"
    from eq1 par have eq2:
      "(case m2 of Inl e \<Rightarrow> Inl e
        | Inr st2 \<Rightarrow>
            (case scopeAnn st2 p of
               None \<Rightarrow> Inr (setScope p parentScope st2, parentScope)
             | Some s \<Rightarrow> Inr (st2, s))) = Inr (st', s)"
      by (simp add: m2_def)
    then obtain st2 where rules: "m2 = Inr st2" by (cases m2) auto
    have e1: "ext W st st1"
    proof (cases "p = []")
      case True
      with par show ?thesis by (simp add: m1_def)
    next
      case False
      with par "1.IH" [OF n None False] show ?thesis by (simp add: m1_def)
    qed
    have e2: "ext W st1 st2"
      using rules by (auto simp: m2_def split: option.splits intro: applyScopeRules_ext)
    have e3: "ext W st2 st' \<and> scopeAnn st' p = Some s"
      using eq2 rules by (auto split: option.splits)
    from e1 e2 e3 show ?thesis by (blast intro: ext_trans)
  qed
qed

lemma gdtD: "gdtOK p gdt \<Longrightarrow> gdt q s = Inr (s', t) \<Longrightarrow> ext (strict_prefix p) s s'"
  by (auto simp: gdtOK_def)

lemma getScopeD: "getScope A root q st = Inr (st', s) \<Longrightarrow> ext W st st'"
  using getScope_ext by blast

lemma logErrorAtD: "logErrorAt msg root q st = Inr (s, u) \<Longrightarrow> ext W st s"
  by (auto dest!: logErrorAt_Inr)

lemma ext_if_log:
  "(if c then logErrorAt msg root q st else Inr (st, ())) = Inr (s, u) \<Longrightarrow> ext W st s"
  by (auto split: if_splits dest: logErrorAtD)

lemma checkArgs_ext:
  "gdtOK p gdt \<Longrightarrow> checkArgs gdt root p func i valid st = Inr (st', v)
     \<Longrightarrow> ext (strict_prefix p) st st'"
proof (induction gdt root p func i valid st arbitrary: st' v rule: checkArgs.induct)
  case (1 gdt root p func i valid st)
  note ok = "1.prems"(1)
  show ?case
  proof (cases "i < length (f_params func)")
    case False
    with "1.prems" show ?thesis by (simp add: checkArgs.simps [of gdt root p func i valid st])
  next
    case True
    from "1.prems"(2) True obtain st1 ty where g: "gdt (p @ [1, i]) st = Inr (st1, ty)"
      by (cases "gdt (p @ [1, i]) st") (auto simp: checkArgs.simps [of gdt root p func i valid st])
    have e1: "ext (strict_prefix p) st st1" using gdtD [OF ok g] .
    show ?thesis
    proof (cases "ty \<noteq> v_type (f_params func ! i)")
      case False
      with "1.prems"(2) True g have
        "checkArgs gdt root p func (i + 1) valid st1 = Inr (st', v)"
        by (simp add: checkArgs.simps [of gdt root p func i valid st])
      with "1.IH"(2) [OF True g refl] False ok have "ext (strict_prefix p) st1 st'"
        by blast
      with e1 show ?thesis by (rule ext_trans)
    next
      case neq: True
      from "1.prems"(2) True g neq obtain st2 u where
        l: "logErrorAt (paramMismatch func i ty) root (p @ [1, i]) st1 = Inr (st2, u)"
        by (cases "logErrorAt (paramMismatch func i ty) root (p @ [1, i]) st1")
           (auto simp: checkArgs.simps [of gdt root p func i valid st])
      with "1.prems"(2) True g neq have
        "checkArgs gdt root p func (i + 1) False st2 = Inr (st', v)"
        by (simp add: checkArgs.simps [of gdt root p func i valid st])
      with "1.IH"(1) [OF True g refl neq l refl] ok have "ext (strict_prefix p) st2 st'"
        by blast
      with e1 logErrorAtD [OF l] show ?thesis
        by (blast intro: ext_trans)
    qed
  qed
qed

lemma assignedVariable_ext:
  "assignedVariable A root p st = Inr (st', v) \<Longrightarrow> ext W st st'"
  by (auto simp: assignedVariable_def split: sum.splits option.splits
           elim!: bnd_Inr dest!: deref_Inr dest: getScopeD)

lemma calledFunction_ext:
  "calledFunction A root p ident st = Inr (st', f) \<Longrightarrow> ext W st st'"
  by (auto simp: calledFunction_def elim!: bnd_Inr dest!: deref_Inr dest: getScopeD)

lemma assignmentSides_ext:
  assumes "gdtOK p gdt" and "assignmentSides gdt root p n st = Inr (st', t)"
  shows "ext (strict_prefix p) st st'"
proof -
  from assms(2) obtain st1 t0 where g0: "gdt (p @ [0]) st = Inr (st1, t0)"
    by (auto simp: assignmentSides_def elim!: bnd_Inr)
  with assms(2) obtain st2 t1 where g1: "gdt (p @ [1]) st1 = Inr (st2, t1)"
    by (auto simp: assignmentSides_def elim!: bnd_Inr)
  have e: "ext (strict_prefix p) st st2"
    using gdtD [OF assms(1) g0] gdtD [OF assms(1) g1] by (rule ext_trans)
  from assms(2) g0 g1 have "ext (strict_prefix p) st2 st'"
    by (auto simp: assignmentSides_def split: if_splits elim!: bnd_Inr
             dest!: logErrorAt_Inr intro!: ext_then_logError)
  with e show ?thesis by (rule ext_trans)
qed

lemma castRule_ext:
  assumes "gdtOK p gdt" and "castRule ty table gdt root p st = Inr (st', t)"
  shows "ext (strict_prefix p) st st'"
proof -
  from assms(2) obtain n where n: "nodeAt root p = Some n"
    by (auto simp: castRule_def elim!: bnd_Inr dest!: deref_Inr)
  show ?thesis
  proof (cases "truthy (typeAnn st p) \<or> tok_type (n_token n) \<noteq> ty")
    case True
    with assms(2) n show ?thesis by (auto simp: castRule_def)
  next
    case False
    with assms(2) n obtain st1 t0 where g0: "gdt (p @ [0]) st = Inr (st1, t0)"
      by (auto simp: castRule_def elim!: bnd_Inr)
    from assms(2) n False g0 have "ext (strict_prefix p) st1 st'"
      by (auto simp: castRule_def Let_def split: if_splits option.splits elim!: bnd_Inr
               dest!: logErrorAt_Inr deref_Inr intro!: ext_then_logError)
    with gdtD [OF assms(1) g0] show ?thesis by (rule ext_trans)
  qed
qed

lemma typeRule_UnaryOp_ext:
  assumes "gdtOK p gdt" and "typeRule_UnaryOp ty ts gdt root p st = Inr (st', t)"
  shows "ext (strict_prefix p) st st'"
proof -
  from assms(2) obtain n where n: "nodeAt root p = Some n"
    by (auto simp: typeRule_UnaryOp_def elim!: bnd_Inr dest!: deref_Inr)
  show ?thesis
  proof (cases "truthy (typeAnn st p) \<or> tok_type (n_token n) \<noteq> ty")
    case True
    with assms(2) n show ?thesis by (auto simp: typeRule_UnaryOp_def)
  next
    case False
    with assms(2) n obtain st1 t0 where g0: "gdt (p @ [0]) st = Inr (st1, t0)"
      by (auto simp: typeRule_UnaryOp_def elim!: bnd_Inr)
    from assms(2) n False g0 have "ext (strict_prefix p) st1 st'"
      by (auto simp: typeRule_UnaryOp_def split: if_splits option.splits elim!: bnd_Inr
               dest!: logErrorAt_Inr intro!: ext_then_logError)
    with gdtD [OF assms(1) g0] show ?thesis by (rule ext_trans)
  qed
qed

lemma typeRule_BinaryOp_ext:
  assumes "gdtOK p gdt" and "typeRule_BinaryOp ty ts gdt root p st = Inr (st', t)"
  shows "ext (strict_prefix p) st st'"
proof -
  from assms(2) obtain n where n: "nodeAt root p = Some n"
    by (auto simp: typeRule_BinaryOp_def elim!: bnd_Inr dest!: deref_Inr)
  show ?thesis
  proof (cases "truthy (typeAnn st p) \<or> tok_type (n_token n) \<noteq> ty")
    case True
    with assms(2) n show ?thesis by (auto simp: typeRule_BinaryOp_def)
  next
    case False
    with assms(2) n obtain st1 t0 where g0: "gdt (p @ [0]) st = Inr (st1, t0)"
      by (auto simp: typeRule_BinaryOp_def elim!: bnd_Inr)
    with assms(2) n False obtain st2 t1 where g1: "gdt (p @ [1]) st1 = Inr (st2, t1)"
      by (auto simp: typeRule_BinaryOp_def elim!: bnd_Inr)
    from assms(2) n False g0 g1 have "ext (strict_prefix p) st2 st'"
      by (auto simp: typeRule_BinaryOp_def split: if_splits option.splits elim!: bnd_Inr
               dest!: logErrorAt_Inr intro!: ext_then_logError)
    with ext_trans [OF gdtD [OF assms(1) g0] gdtD [OF assms(1) g1]] show ?thesis
      by (rule ext_trans)
  qed
qed

lemma typeRule_Access_ext:
  assumes "gdtOK p gdt" and "typeRule_Access gdt root p st = Inr (st', t)"
  shows "ext (strict_prefix p) st st'"
  using assms
  by (auto simp: typeRule_Access_def split: if_splits sum.splits option.splits
           elim!: bnd_Inr dest!: deref_Inr dest: gdtD)

lemma typeRule_Ids_ext:
  "typeRule_VariableId A root p st = Inr (st', t) \<Longrightarrow> ext W st st'"
  "typeRule_FunctionId A root p st = Inr (st', t) \<Longrightarrow> ext W st st'"
  "typeRule_StructId A root p st = Inr (st', t) \<Longrightarrow> ext W st st'"
  by (auto simp: typeRule_VariableId_def typeRule_FunctionId_def typeRule_StructId_def
           split: option.splits elim!: bnd_Inr dest!: deref_Inr intro!: ext_then_logError)
     (meson ext_trans getScopeD)+

lemma typeRule_simple_ext:
  "typeRule_Type root p st = Inr (st', t) \<Longrightarrow> ext W st st'"
  "typeRule_VariableDef root p st = Inr (st', t) \<Longrightarrow> ext W st st'"
  "typeRule_FunctionDef root p st = Inr (st', t) \<Longrightarrow> ext W st st'"
  "typeRule_StructDef root p st = Inr (st', t) \<Longrightarrow> ext W st st'"
  "typeRule_Literal root p st = Inr (st', t) \<Longrightarrow> ext W st st'"
  by (auto simp: typeRule_Type_def typeRule_VariableDef_def typeRule_FunctionDef_def
           typeRule_StructDef_def typeRule_Literal_def elim!: bnd_Inr dest!: deref_Inr)

lemma typeRule_Assignment_ext:
  assumes "gdtOK p gdt" and "typeRule_Assignment A gdt root p st = Inr (st', t)"
  shows "ext (strict_prefix p) st st'"
proof -
  from assms(2) obtain n st1 nvar where n: "nodeAt root p = Some n"
    and av: "assignedVariable A root p st = Inr (st1, nvar)"
    by (auto simp: typeRule_Assignment_def elim!: bnd_Inr dest!: deref_Inr)
  from assms(2) n av have "ext (strict_prefix p) st1 st'"
    by (auto simp: typeRule_Assignment_def split: if_splits
             intro: assignmentSides_ext [OF assms(1)])
  with assignedVariable_ext [OF av] show ?thesis by (rule ext_trans)
qed

lemma typeRule_Global_ext:
  assumes "gdtOK p gdt" and "typeRule_Global gdt root p st = Inr (st', t)"
  shows "ext (strict_prefix p) st st'"
  using assms
  by (auto simp: typeRule_Global_def elim!: bnd_Inr dest!: deref_Inr
           intro: assignmentSides_ext)

lemma typeRule_FunctionCall_ext:
  assumes "gdtOK p gdt" and "typeRule_FunctionCall A gdt root p st = Inr (st', t)"
  shows "ext (strict_prefix p) st st'"
proof -
  from assms(2) obtain n where n: "nodeAt root p = Some n"
    by (auto simp: typeRule_FunctionCall_def elim!: bnd_Inr dest!: deref_Inr)
  show ?thesis
  proof (cases "getIdentifier root (p @ [0])")
    case (Inl e)
    with assms(2) n show ?thesis by (simp add: typeRule_FunctionCall_def)
  next
    case (Inr io)
    show ?thesis
    proof (cases io)
      case None
      with assms(2) n Inr show ?thesis by (auto simp: typeRule_FunctionCall_def)
    next
      case (Some ident)
      with assms(2) n Inr obtain st1 fo where
        cf: "calledFunction A root p ident st = Inr (st1, fo)"
        by (auto simp: typeRule_FunctionCall_def elim!: bnd_Inr)
      have ca: "ext (strict_prefix p) s s'" if "checkArgs gdt root p f 0 True s = Inr (s', v)"
        for f s s' v
        using checkArgs_ext [OF assms(1) that] .
      from assms(2) n Inr Some cf have "ext (strict_prefix p) st1 st'"
        by (auto simp: typeRule_FunctionCall_def split: option.splits if_splits
                 elim!: bnd_Inr dest!: deref_Inr ca)
      with calledFunction_ext [OF cf] show ?thesis by (rule ext_trans)
    qed
  qed
qed

lemma typeRule_Return_ext:
  assumes "gdtOK p gdt" and "typeRule_Return gdt root p st = Inr (st', t)"
  shows "ext (strict_prefix p) st st'"
proof -
  from assms(2) obtain st1 t0 where g0: "gdt (p @ [0]) st = Inr (st1, t0)"
    by (auto simp: typeRule_Return_def elim!: bnd_Inr)
  from assms(2) g0 have "ext (strict_prefix p) st1 st'"
    by (auto simp: typeRule_Return_def split: option.splits if_splits
             elim!: bnd_Inr dest!: deref_Inr logErrorAt_Inr)
  with gdtD [OF assms(1) g0] show ?thesis by (rule ext_trans)
qed

lemma typeRule_ReturnVoid_ext:
  "typeRule_ReturnVoid root p st = Inr (st', t) \<Longrightarrow> ext W st st'"
  by (auto simp: typeRule_ReturnVoid_def split: option.splits if_splits
           elim!: bnd_Inr dest!: deref_Inr logErrorAt_Inr)

lemma runDataTypeRule_ext:
  assumes "gdtOK p gdt" and "runDataTypeRule r A gdt root p st = Inr (st', t)"
  shows "ext (strict_prefix p) st st'"
  using assms
  by (cases r)
     (auto simp: typeRule_As_def typeRule_To_def
           intro: typeRule_Access_ext typeRule_Ids_ext typeRule_simple_ext
                  typeRule_UnaryOp_ext typeRule_BinaryOp_ext typeRule_Assignment_ext
                  typeRule_Global_ext castRule_ext typeRule_FunctionCall_ext
                  typeRule_Return_ext typeRule_ReturnVoid_ext)

lemma applyDataTypeRules_ext:
  "gdtOK p gdt \<Longrightarrow> applyDataTypeRules rs A gdt root p st = Inr st' \<Longrightarrow> ext (prefix p) st st'"
proof (induction rs arbitrary: st)
  case Nil
  then show ?case by simp
next
  case (Cons r rs)
  from Cons.prems(2) obtain st1 t where r: "runDataTypeRule r A gdt root p st = Inr (st1, t)"
    and rest: "applyDataTypeRules rs A gdt root p (setType p t st1) = Inr st'"
    by (auto split: sum.splits)
  have "ext (prefix p) st st1"
    using runDataTypeRule_ext [OF Cons.prems(1) r] by (rule ext_mono) auto
  then have "ext (prefix p) st (setType p t st1)"
    by (rule ext_then_setType) simp
  with Cons.IH [OF Cons.prems(1) rest] show ?case by (rule ext_trans [rotated])
qed

lemma typeAnn_setType [simp]: "typeAnn (setType p t st) p = t"
  by (simp add: setType_def)

lemma truthy_Some: "truthy t \<Longrightarrow> \<exists>s. t = Some s \<and> s \<noteq> []"
  by (cases t) (auto simp: truthy_def)

lemma truthy_simps [simp]: "truthy None = False" "truthy (Some s) = (s \<noteq> [])"
  by (simp_all add: truthy_def)

lemma getDataType_unfold:
  "getDataType A root p st =
     (case nodeAt root p of
        None \<Rightarrow> Inl TypeError
      | Some n \<Rightarrow>
          (let st1 = (if \<not> n_valid n then setType p (Some DataType_Invalid) st else st) in
           if truthy (typeAnn st1 p) then Inr (st1, the (typeAnn st1 p))
           else (case (case dataTypeRuleMap A (n_type n) of
                         None \<Rightarrow> Inr st1
                       | Some rules \<Rightarrow> applyDataTypeRules rules A (below A root p) root p st1) of
                   Inl e \<Rightarrow> Inl e
                 | Inr st2 \<Rightarrow>
                     if \<not> truthy (typeAnn st2 p)
                     then Inr (setType p (Some DataType_None) st2, DataType_None)
                     else Inr (st2, the (typeAnn st2 p)))))"
  unfolding below_def by (rule getDataType.simps)

lemma getDataType_ext:
  "getDataType A root p st = Inr (st', t) \<Longrightarrow>
     ext (prefix p) st st' \<and> typeAnn st' p = Some t \<and> t \<noteq> []
     \<and> (\<forall>n. nodeAt root p = Some n \<longrightarrow> \<not> n_valid n \<longrightarrow> t = DataType_Invalid)"
proof (induction A root p st arbitrary: st' t rule: getDataType.induct)
  case (1 A root p st)
  from "1.prems" obtain n where n: "nodeAt root p = Some n"
    by (auto simp: getDataType_unfold [of A root p st] split: option.splits)
  define st1 where "st1 = (if \<not> n_valid n then setType p (Some DataType_Invalid) st else st)"
  have e1: "ext (prefix p) st st1"
    by (simp add: st1_def ext_setType)
  show ?case
  proof (cases "truthy (typeAnn st1 p)")
    case True
    with "1.prems" n have "st' = st1" "t = the (typeAnn st1 p)"
      by (auto simp add: getDataType_unfold [of A root p st] st1_def Let_def)
    moreover from True obtain s where "typeAnn st1 p = Some s" "s \<noteq> []"
      by (auto dest: truthy_Some)
    moreover have "\<not> n_valid n \<Longrightarrow> typeAnn st1 p = Some DataType_Invalid"
      by (simp add: st1_def)
    ultimately show ?thesis using e1 n by auto
  next
    case False
    then have valid: "n_valid n" by (auto simp: st1_def split: if_splits)
    define m where "m = (case dataTypeRuleMap A (n_type n) of
                         None \<Rightarrow> Inr st1
                       | Some rules \<Rightarrow> applyDataTypeRules rules A (below A root p) root p st1)"
    from "1.prems" n False have eq:
      "(case m of Inl e \<Rightarrow> Inl e
        | Inr st2 \<Rightarrow>
            if \<not> truthy (typeAnn st2 p)
            then Inr (setType p (Some DataType_None) st2, DataType_None)
            else Inr (st2, the (typeAnn st2 p))) = Inr (st', t)"
      unfolding m_def st1_def
      by (simp add: getDataType_unfold [of A root p st] Let_def)
    then obtain st2 where st2: "m = Inr st2" by (cases m) auto
    have e2: "ext (prefix p) st1 st2"
    proof (cases "dataTypeRuleMap A (n_type n)")
      case None
      with st2 show ?thesis by (simp add: m_def)
    next
      case (Some rules)
      have ok: "gdtOK p (below A root p)"
        unfolding gdtOK_def below_def
      proof (intro allI impI)
        fix q s s' t'
        assume a: "(if strict_prefix p q then getDataType A root q s else Inl TypeError)
                     = Inr (s', t')"
        then have sp: "strict_prefix p q" by (auto split: if_splits)
        from a sp have g: "getDataType A root q s = Inr (s', t')" by simp
        from "1.IH" [OF n refl _ Some sp g] False
        have "ext (prefix q) s s'" by (simp add: st1_def)
        then show "ext (strict_prefix p) s s'"
        proof (rule ext_mono)
          fix r assume "prefix q r"
          with sp show "strict_prefix p r"
            by (auto simp: strict_prefix_def prefix_def)
        qed
      qed
      from st2 Some have "applyDataTypeRules rules A (below A root p) root p st1 = Inr st2"
        by (simp add: m_def)
      with ok show ?thesis by (rule applyDataTypeRules_ext)
    qed
    from eq st2 have e3: "ext (prefix p) st2 st' \<and> typeAnn st' p = Some t \<and> t \<noteq> []"
      by (auto split: if_splits simp: ext_setType dest: truthy_Some)
    from e1 e2 e3 valid n show ?thesis by (auto intro: ext_trans)
  qed
qed

lemma forEach_ext:
  assumes "\<And>x s s'. f x s = Inr s' \<Longrightarrow> ext W s s'"
  shows "forEach f xs st = Inr st' \<Longrightarrow> ext W st st'"
proof (induction xs arbitrary: st)
  case Nil
  then show ?case by simp
next
  case (Cons x xs)
  from Cons.prems obtain st1 where 1: "f x st = Inr st1" and 2: "forEach f xs st1 = Inr st'"
    by (auto split: sum.splits)
  from assms [OF 1] Cons.IH [OF 2] show ?case by (rule ext_trans)
qed

lemma forEach_inv:
  assumes "forEach f xs st = Inr st'" and "distinct (ys @ xs)" and "I ys st"
    and "\<And>x zs s s'. x \<in> set xs \<Longrightarrow> x \<notin> set zs \<Longrightarrow> I zs s \<Longrightarrow> f x s = Inr s'
           \<Longrightarrow> I (zs @ [x]) s'"
  shows "I (ys @ xs) st'"
  using assms
proof (induction xs arbitrary: ys st)
  case Nil
  then show ?case by simp
next
  case (Cons x xs)
  from Cons.prems(1) obtain st1 where 1: "f x st = Inr st1" and 2: "forEach f xs st1 = Inr st'"
    by (auto split: sum.splits)
  have i: "I (ys @ [x]) st1"
    using Cons.prems(2,3) 1 by (intro Cons.prems(4)) auto
  have "I ((ys @ [x]) @ xs) st'"
  proof (rule Cons.IH [OF 2 _ i])
    show "distinct ((ys @ [x]) @ xs)" using Cons.prems(2) by simp
  next
    fix y zs s s'
    assume "y \<in> set xs" "y \<notin> set zs" "I zs s" "f y s = Inr s'"
    then show "I (zs @ [y]) s'" by (intro Cons.prems(4)) auto
  qed
  then show ?case by simp
qed

lemma forEach_id:
  "(\<And>x. x \<in> set xs \<Longrightarrow> f x st = Inr st) \<Longrightarrow> forEach f xs st = Inr st"
  by (induction xs) auto

lemma nodeAt_child:
  "nodeAt root p = Some n \<Longrightarrow> nodeAt root (p @ [i]) =
     (if i < length (n_children n) then Some (n_children n ! i) else None)"
  by (simp add: nodeAt_append)

lemma below_cases:
  assumes "prefix p q" and "nodeAt root p = Some n" and "nodeAt root q \<noteq> None"
  shows "q = p \<or> (\<exists>i < length (n_children n). prefix (p @ [i]) q)"
proof -
  from assms(1) obtain r where q: "q = p @ r" by (auto simp: prefix_def)
  show ?thesis
  proof (cases r)
    case Nil
    with q show ?thesis by simp
  next
    case (Cons i r')
    with q assms(2,3) have "i < length (n_children n)"
      by (auto simp: nodeAt_append split: if_splits)
    moreover have "prefix (p @ [i]) q" using q Cons by simp
    ultimately show ?thesis by blast
  qed
qed

lemma not_prefix_sibling: "prefix (p @ [i]) q \<Longrightarrow> i \<noteq> j \<Longrightarrow> \<not> prefix (p @ [j]) q"
  by (auto simp: prefix_def append_eq_append_conv2 Cons_eq_append_conv)

lemma not_prefix_child_self [simp]: "\<not> prefix (p @ [j]) p"
  by (auto simp: prefix_def)

lemma typed_cong: "typeAnn st' q = typeAnn st q \<Longrightarrow> typed root st' q = typed root st q"
  by (simp add: typed_def)

lemma extD_type: "ext W st st' \<Longrightarrow> \<not> W r \<Longrightarrow> typeAnn st' r = typeAnn st r"
  by (simp add: ext_def)

lemma extD_scope: "ext W st st' \<Longrightarrow> scopeAnn st r \<noteq> None \<Longrightarrow> scopeAnn st' r \<noteq> None"
  unfolding ext_def by blast

lemma typePass_ok:
  "typePass A root p st = Inr st' \<Longrightarrow>
     ext (prefix p) st st'
     \<and> (\<forall>q. prefix p q \<longrightarrow> nodeAt root q \<noteq> None \<longrightarrow> typed root st' q)"
proof (induction A root p st arbitrary: st' rule: typePass.induct)
  case (1 A root p st)
  from "1.prems" obtain n where n: "nodeAt root p = Some n"
    by (auto simp: typePass.simps [of A root p st] split: option.splits)
  from "1.prems" n obtain st1 t where g: "getDataType A root p st = Inr (st1, t)"
    by (cases "getDataType A root p st") (auto simp: typePass.simps [of A root p st])
  define st0 where "st0 = setType p (Some t) st1"
  from "1.prems" n g have fe:
    "forEach (\<lambda>i st2. typePass A root (p @ [i]) st2) [0..<length (n_children n)] st0 = Inr st'"
    by (simp add: typePass.simps [of A root p st] st0_def)
  note gd = getDataType_ext [OF g]
  have e0: "ext (prefix p) st st0"
    unfolding st0_def using gd by (auto intro: ext_then_setType)
  have t0: "typed root st0 p"
    using gd n by (auto simp: typed_def st0_def)
  define I where "I = (\<lambda>ys s. ext (prefix p) st0 s \<and> typed root s p
     \<and> (\<forall>i\<in>set ys. \<forall>q. prefix (p @ [i]) q \<longrightarrow> nodeAt root q \<noteq> None \<longrightarrow> typed root s q))"
  have "I ([] @ [0..<length (n_children n)]) st'"
  proof (rule forEach_inv [OF fe])
    show "distinct ([] @ [0..<length (n_children n)])" by simp
    show "I [] st0" by (simp add: I_def t0)
  next
    fix x zs s s'
    assume x: "x \<in> set [0..<length (n_children n)]" and nz: "x \<notin> set zs"
      and i: "I zs s" and f: "typePass A root (p @ [x]) s = Inr s'"
    from "1.IH" [OF n g refl f]
    have e: "ext (prefix (p @ [x])) s s'"
      and ty: "\<And>q. prefix (p @ [x]) q \<Longrightarrow> nodeAt root q \<noteq> None \<Longrightarrow> typed root s' q"
      by auto
    have e': "ext (prefix p) s s'"
      using e by (rule ext_mono) (auto simp: prefix_def)
    have keep: "typed root s' q" if "typed root s q" "\<not> prefix (p @ [x]) q" for q
      using that typed_cong [OF extD_type [OF e that(2)]] by simp
    show "I (zs @ [x]) s'"
      unfolding I_def
    proof (intro conjI ballI allI impI)
      show "ext (prefix p) st0 s'" using i e' by (auto simp: I_def intro: ext_trans)
      show "typed root s' p" using i by (auto simp: I_def intro: keep)
    next
      fix j q assume j: "j \<in> set (zs @ [x])" and q: "prefix (p @ [j]) q" "nodeAt root q \<noteq> None"
      show "typed root s' q"
      proof (cases "j = x")
        case True
        with q ty show ?thesis by simp
      next
        case False
        with j have "j \<in> set zs" by simp
        with i q have "typed root s q" by (auto simp: I_def)
        moreover have "\<not> prefix (p @ [x]) q" using q(1) False by (rule not_prefix_sibling)
        ultimately show ?thesis by (rule keep)
      qed
    qed
  qed
  then have I: "I [0..<length (n_children n)] st'" by simp
  have "ext (prefix p) st st'" using e0 I by (auto simp: I_def intro: ext_trans)
  moreover have "typed root st' q" if "prefix p q" "nodeAt root q \<noteq> None" for q
    using below_cases [OF that(1) n that(2)] I that by (auto simp: I_def)
  ultimately show ?case by blast
qed

lemma hoistPass_ext: "hoistPass A root p st = Inr st' \<Longrightarrow> ext W st st'"
proof (induction A root p st arbitrary: st' rule: hoistPass.induct)
  case (1 A root p st)
  from "1.prems" obtain n where n: "nodeAt root p = Some n"
    by (auto simp: hoistPass.simps [of A root p st] split: option.splits)
  from "1.prems" n obtain st1 s where g: "getScope A root p st = Inr (st1, s)"
    by (cases "getScope A root p st") (auto simp: hoistPass.simps [of A root p st])
  from "1.prems" n g have fe:
    "forEach (\<lambda>i st2. if n_type (n_children n ! i) \<noteq> AstStructDef then Inr st2
                        else hoistPass A root (p @ [i]) st2)
       [0..<length (n_children n)] (setScope p s st1) = Inr st'"
    by (simp add: hoistPass.simps [of A root p st])
  have "ext W (setScope p s st1) st'"
  proof (rule forEach_ext [OF _ fe])
    fix x s2 s2'
    assume "(if n_type (n_children n ! x) \<noteq> AstStructDef then Inr s2
             else hoistPass A root (p @ [x]) s2) = Inr s2'"
    then show "ext W s2 s2'"
      using "1.IH" [OF n g refl] by (auto split: if_splits)
  qed
  moreover have "ext W st (setScope p s st1)"
    using getScopeD [OF g] by (rule ext_then_setScope)
  ultimately show ?case by (rule ext_trans [rotated])
qed

lemma scopePass_ok:
  "scopePass A root p st = Inr st' \<Longrightarrow>
     ext W st st'
     \<and> (\<forall>q. prefix p q \<longrightarrow> nodeAt root q \<noteq> None \<longrightarrow> scopeAnn st' q \<noteq> None)"
proof (induction A root p st arbitrary: st' rule: scopePass.induct)
  case (1 A root p st)
  from "1.prems" obtain n where n: "nodeAt root p = Some n"
    by (auto simp: scopePass.simps [of A root p st] split: option.splits)
  from "1.prems" n obtain st1 s where g: "getScope A root p st = Inr (st1, s)"
    by (cases "getScope A root p st") (auto simp: scopePass.simps [of A root p st])
  define st0 where "st0 = setScope p s st1"
  from "1.prems" n g have fe:
    "forEach (\<lambda>i st2. scopePass A root (p @ [i]) st2) [0..<length (n_children n)] st0 = Inr st'"
    by (simp add: scopePass.simps [of A root p st] st0_def)
  have e0: "ext W st st0"
    unfolding st0_def using getScopeD [OF g] by (rule ext_then_setScope)
  define I where "I = (\<lambda>ys s. ext W st0 s
     \<and> (\<forall>i\<in>set ys. \<forall>q. prefix (p @ [i]) q \<longrightarrow> nodeAt root q \<noteq> None \<longrightarrow> scopeAnn s q \<noteq> None))"
  have "I ([] @ [0..<length (n_children n)]) st'"
  proof (rule forEach_inv [OF fe])
    show "distinct ([] @ [0..<length (n_children n)])" by simp
    show "I [] st0" by (simp add: I_def)
  next
    fix x zs s2 s2'
    assume i: "I zs s2" and f: "scopePass A root (p @ [x]) s2 = Inr s2'"
    from "1.IH" [OF n g refl f]
    have e: "ext W s2 s2'"
      and sc: "\<And>q. prefix (p @ [x]) q \<Longrightarrow> nodeAt root q \<noteq> None \<Longrightarrow> scopeAnn s2' q \<noteq> None"
      by auto
    show "I (zs @ [x]) s2'"
      unfolding I_def
    proof (intro conjI ballI allI impI)
      show "ext W st0 s2'" using i e by (auto simp: I_def intro: ext_trans)
    next
      fix j q assume j: "j \<in> set (zs @ [x])" and q: "prefix (p @ [j]) q" "nodeAt root q \<noteq> None"
      show "scopeAnn s2' q \<noteq> None"
      proof (cases "j = x")
        case True
        with q sc show ?thesis by simp
      next
        case False
        with j have "j \<in> set zs" by simp
        with i q have "scopeAnn s2 q \<noteq> None" by (auto simp: I_def)
        with e show ?thesis by (rule extD_scope)
      qed
    qed
  qed
  then have I: "I [0..<length (n_children n)] st'" by simp
  have e: "ext W st0 st'" using I by (simp add: I_def)
  have "scopeAnn st0 p \<noteq> None" by (simp add: st0_def)
  with e have p: "scopeAnn st' p \<noteq> None" by (rule extD_scope)
  have "ext W st st'" using e0 e by (rule ext_trans)
  moreover have "scopeAnn st' q \<noteq> None" if "prefix p q" "nodeAt root q \<noteq> None" for q
    using below_cases [OF that(1) n that(2)] I that p by (auto simp: I_def)
  ultimately show ?case by blast
qed

lemma analysisPass_no_rules:
  "analysisRuleMap A = Map.empty \<Longrightarrow> nodeAt root p = Some n \<Longrightarrow> analysisPass A root p st = Inr st"
proof (induction A root p st arbitrary: n rule: analysisPass.induct)
  case (1 A root p st)
  have "forEach (\<lambda>i st3. analysisPass A root (p @ [i]) st3) [0..<length (n_children n)] st = Inr st"
  proof (rule forEach_id)
    fix i assume "i \<in> set [0..<length (n_children n)]"
    then have i: "i < length (n_children n)" by simp
    have "nodeAt root (p @ [i]) = Some (n_children n ! i)"
      using i "1.prems"(2) by (simp add: nodeAt_append)
    with "1.IH" "1.prems" show "analysisPass A root (p @ [i]) st = Inr st"
      by simp
  qed
  then show ?case using "1.prems" by (simp add: analysisPass.simps [of A root p st])
qed

lemma analyze_annotated:
  assumes "analysisRuleMap A = Map.empty" and "analyze A root st = Inr st'"
  shows "annotated root st'"
proof -
  from assms(2) obtain st1 where h: "hoistPass A root [] st = Inr st1"
    by (cases "hoistPass A root [] st") (auto simp: analyze_def)
  with assms(2) obtain st2 where s: "scopePass A root [] st1 = Inr st2"
    by (cases "scopePass A root [] st1") (auto simp: analyze_def)
  with assms(2) h obtain st3 where t: "typePass A root [] st2 = Inr st3"
    by (cases "typePass A root [] st2") (auto simp: analyze_def)
  from assms(2) h s t have a: "analysisPass A root [] st3 = Inr st'"
    by (simp add: analyze_def)
  have "analysisPass A root [] st3 = Inr st3"
    by (rule analysisPass_no_rules [OF assms(1)]) simp
  with a have st': "st' = st3" by simp
  from scopePass_ok [OF s, of "\<lambda>r. False"]
  have sc: "\<And>q. nodeAt root q \<noteq> None \<Longrightarrow> scopeAnn st2 q \<noteq> None" by simp
  from typePass_ok [OF t]
  have e: "ext (prefix []) st2 st3" and ty: "\<And>q. nodeAt root q \<noteq> None \<Longrightarrow> typed root st3 q"
    by simp_all
  show ?thesis
    unfolding annotated_def st'
    using sc ty extD_scope [OF e] by blast
qed

lemma setScope_same: "scopeAnn st p = Some s \<Longrightarrow> setScope p s st = st"
  by (simp add: setScope_def map_upd_triv)

lemma setType_same: "typeAnn st p = t \<Longrightarrow> setType p t st = st"
  by (auto simp add: setType_def)

lemma getScope_annotated:
  "nodeAt root p = Some n \<Longrightarrow> scopeAnn st p = Some s \<Longrightarrow> getScope A root p st = Inr (st, s)"
  by (simp add: getScope.simps [of A root p st])

lemma getDataType_annotated:
  assumes "nodeAt root p = Some n" and "typed root st p"
  shows "\<exists>t. getDataType A root p st = Inr (st, t) \<and> typeAnn st p = Some t"
proof -
  from assms(2) obtain t where t: "typeAnn st p = Some t" "t \<noteq> []"
    by (auto simp: typed_def dest: truthy_Some)
  have "(if \<not> n_valid n then setType p (Some DataType_Invalid) st else st) = st"
    using assms t by (auto simp: typed_def intro: setType_same)
  then show ?thesis
    using assms(1) t by (simp add: getDataType_unfold [of A root p st] Let_def)
qed

lemma hoistPass_annotated:
  "annotated root st \<Longrightarrow> nodeAt root p = Some n \<Longrightarrow> hoistPass A root p st = Inr st"
proof (induction A root p st arbitrary: n rule: hoistPass.induct)
  case (1 A root p st)
  from "1.prems" obtain s where s: "scopeAnn st p = Some s" by (auto simp: annotated_def)
  note g = getScope_annotated [OF "1.prems"(2) s, of A]
  have "forEach (\<lambda>i st2. if n_type (n_children n ! i) \<noteq> AstStructDef then Inr st2
                        else hoistPass A root (p @ [i]) st2)
       [0..<length (n_children n)] st = Inr st"
  proof (rule forEach_id)
    fix i assume "i \<in> set [0..<length (n_children n)]"
    then have c: "nodeAt root (p @ [i]) = Some (n_children n ! i)"
      using "1.prems"(2) by (simp add: nodeAt_append)
    have "hoistPass A root (p @ [i]) st = Inr st"
      if "n_type (n_children n ! i) = AstStructDef"
      using "1.IH" [OF "1.prems"(2) g [unfolded setScope_same [OF s]] refl _ _ c] that "1.prems"(1)
      by (simp add: setScope_same [OF s])
    then show "(if n_type (n_children n ! i) \<noteq> AstStructDef then Inr st
             else hoistPass A root (p @ [i]) st) = Inr st"
      by simp
  qed
  then show ?case using "1.prems" g s
    by (simp add: hoistPass.simps [of A root p st] setScope_same)
qed

lemma scopePass_annotated:
  "annotated root st \<Longrightarrow> nodeAt root p = Some n \<Longrightarrow> scopePass A root p st = Inr st"
proof (induction A root p st arbitrary: n rule: scopePass.induct)
  case (1 A root p st)
  from "1.prems" obtain s where s: "scopeAnn st p = Some s" by (auto simp: annotated_def)
  note g = getScope_annotated [OF "1.prems"(2) s, of A]
  have "forEach (\<lambda>i st2. scopePass A root (p @ [i]) st2) [0..<length (n_children n)] st = Inr st"
  proof (rule forEach_id)
    fix i assume "i \<in> set [0..<length (n_children n)]"
    then have c: "nodeAt root (p @ [i]) = Some (n_children n ! i)"
      using "1.prems"(2) by (simp add: nodeAt_append)
    show "scopePass A root (p @ [i]) st = Inr st"
      using "1.IH" [OF "1.prems"(2) g refl _ c] "1.prems"(1)
      by (simp add: setScope_same [OF s])
  qed
  then show ?case using "1.prems" g s
    by (simp add: scopePass.simps [of A root p st] setScope_same)
qed

lemma typePass_annotated:
  "annotated root st \<Longrightarrow> nodeAt root p = Some n \<Longrightarrow> typePass A root p st = Inr st"
proof (induction A root p st arbitrary: n rule: typePass.induct)
  case (1 A root p st)
  from "1.prems" have "typed root st p" by (auto simp: annotated_def)
  from getDataType_annotated [OF "1.prems"(2) this, of A]
  obtain t where g: "getDataType A root p st = Inr (st, t)" and t: "typeAnn st p = Some t"
    by blast
  have "forEach (\<lambda>i st2. typePass A root (p @ [i]) st2) [0..<length (n_children n)] st = Inr st"
  proof (rule forEach_id)
    fix i assume "i \<in> set [0..<length (n_children n)]"
    then have c: "nodeAt root (p @ [i]) = Some (n_children n ! i)"
      using "1.prems"(2) by (simp add: nodeAt_append)
    show "typePass A root (p @ [i]) st = Inr st"
      using "1.IH" [OF "1.prems"(2) g refl _ c] "1.prems"(1)
      by (simp add: setType_same [OF t])
  qed
  then show ?case using "1.prems" g t
    by (simp add: typePass.simps [of A root p st] setType_same)
qed

lemma analyze_idempotent:
  assumes "analysisRuleMap A = Map.empty" and "annotated root st"
  shows "analyze A root st = Inr st"
  using assms
  by (simp add: analyze_def hoistPass_annotated scopePass_annotated typePass_annotated
        analysisPass_no_rules)

lemma below_child [simp]: "below A root p (p @ i # r) = getDataType A root (p @ i # r)"
  by (rule ext) (simp add: below_def strict_prefix_def prefix_def)

lemma not_prefix_arg: "i \<noteq> j \<Longrightarrow> \<not> prefix (p @ [1, i]) (p @ [1, j])"
  by (simp add: prefix_def)






lemma store_logError [simp]: "store (logError msg n st) = store st"
  by (simp add: logError_def)

lemma logger_logError [simp]: "logger (logError msg n st) = logger st @ [newLogMsg msg n]"
  by (simp add: logError_def)

subsection \<open>The recursion of \<open>getDataType\<close>\<close>

text \<open>
  The rules of \<open>SchwaAnalyzer\<close> call \<open>getDataType\<close> only on nodes strictly below the node
  they type: the Access rule is registered for Access nodes only, whose identifier lies
  inside the second child. For this analyzer \<open>getDataType\<close> therefore satisfies the
  equation of the source, in which the rules receive \<open>getDataType\<close> itself.
\<close>

lemma getIdentifier_prefix: "getIdentifier root q = Inr (Some r) \<Longrightarrow> prefix q r"
proof (induction root q rule: getIdentifier.induct)
  case (1 root q)
  from "1.prems" obtain n where n: "nodeAt root q = Some n"
    by (auto simp: getIdentifier.simps [of root q] split: option.splits)
  show ?case
  proof (cases "n_type n = AstFunctionId \<or> n_type n = AstVariableId")
    case True
    with "1.prems" n show ?thesis by (simp add: getIdentifier.simps [of root q])
  next
    case False
    with "1.prems" n have a: "n_type n = AstAccess" and g: "getIdentifier root (q @ [1]) = Inr (Some r)"
      by (auto simp: getIdentifier.simps [of root q] split: if_splits)
    from "1.IH" [OF n False a g] have "prefix (q @ [1]) r" .
    then show ?thesis by (auto simp: prefix_def)
  qed
qed

lemma checkArgs_cong:
  assumes e: "\<And>i. g (p @ [1, i]) = g' (p @ [1, i])"
  shows "checkArgs g root p func i valid st = checkArgs g' root p func i valid st"
proof (induction "length (f_params func) - i" arbitrary: i valid st rule: less_induct)
  case less
  show ?case
  proof (cases "i < length (f_params func)")
    case False
    then show ?thesis
      by (simp add: checkArgs.simps [of g root p func i] checkArgs.simps [of g' root p func i])
  next
    case True
    then have m: "length (f_params func) - (i + 1) < length (f_params func) - i" by simp
    have ih: "\<And>valid st. checkArgs g root p func (i + 1) valid st
                           = checkArgs g' root p func (i + 1) valid st"
      by (rule less [OF m])
    show ?thesis
      unfolding checkArgs.simps [of g root p func i] checkArgs.simps [of g' root p func i] ih e ..
  qed
qed

lemma runDataTypeRule_below:
  assumes n: "nodeAt root p = Some n"
    and acc: "r = DataTypeRule_Access \<Longrightarrow> n_type n = AstAccess"
  shows "runDataTypeRule r A (below A root p) root p st
         = runDataTypeRule r A (getDataType A root) root p st"
proof -
  have b: "\<And>x xs. below A root p (p @ x # xs) = getDataType A root (p @ x # xs)"
    by (auto simp: below_def strict_prefix_def fun_eq_iff)
  show ?thesis
  proof (cases r)
    case DataTypeRule_Access
    have d: "deref root p st = Inr (st, n)" using n by (simp add: deref_def)
    from acc DataTypeRule_Access have a: "n_type n = AstAccess" by simp
    have i: "getIdentifier root p = getIdentifier root (p @ [1])"
      using n a by (simp add: getIdentifier.simps [of root p])
    have "\<And>q. getIdentifier root p = Inr (Some q) \<Longrightarrow> below A root p q = getDataType A root q"
    proof -
      fix q assume "getIdentifier root p = Inr (Some q)"
      with i have "prefix (p @ [1]) q" by (simp add: getIdentifier_prefix)
      then have "strict_prefix p q" by (auto simp: prefix_def strict_prefix_def)
      then show "below A root p q = getDataType A root q" by (simp add: below_def fun_eq_iff)
    qed
    then show ?thesis using DataTypeRule_Access
      by (auto simp: typeRule_Access_def d split: sum.splits option.splits)
  next
    case (DataTypeRule_UnaryOp ty ts)
    show ?thesis unfolding DataTypeRule_UnaryOp runDataTypeRule.simps typeRule_UnaryOp_def b ..
  next
    case (DataTypeRule_BinaryOp ty ts)
    show ?thesis unfolding DataTypeRule_BinaryOp runDataTypeRule.simps typeRule_BinaryOp_def b ..
  next
    case DataTypeRule_Assignment
    show ?thesis unfolding DataTypeRule_Assignment runDataTypeRule.simps typeRule_Assignment_def
      assignmentSides_def b ..
  next
    case DataTypeRule_Global
    show ?thesis unfolding DataTypeRule_Global runDataTypeRule.simps typeRule_Global_def
      assignmentSides_def b ..
  next
    case DataTypeRule_As
    show ?thesis unfolding DataTypeRule_As runDataTypeRule.simps typeRule_As_def castRule_def b ..
  next
    case DataTypeRule_To
    show ?thesis unfolding DataTypeRule_To runDataTypeRule.simps typeRule_To_def castRule_def b ..
  next
    case DataTypeRule_FunctionCall
    have c: "\<And>func i valid s. checkArgs (below A root p) root p func i valid s
               = checkArgs (getDataType A root) root p func i valid s"
      by (rule checkArgs_cong) (rule b)
    show ?thesis unfolding DataTypeRule_FunctionCall runDataTypeRule.simps
      typeRule_FunctionCall_def c ..
  next
    case DataTypeRule_Return
    show ?thesis unfolding DataTypeRule_Return runDataTypeRule.simps typeRule_Return_def b ..
  qed simp_all
qed

lemma applyDataTypeRules_below:
  assumes n: "nodeAt root p = Some n"
    and acc: "DataTypeRule_Access \<in> set rules \<Longrightarrow> n_type n = AstAccess"
  shows "applyDataTypeRules rules A (below A root p) root p st
         = applyDataTypeRules rules A (getDataType A root) root p st"
  using acc
proof (induction rules arbitrary: st)
  case Nil
  show ?case by simp
next
  case (Cons r rs)
  have 1: "runDataTypeRule r A (below A root p) root p st
           = runDataTypeRule r A (getDataType A root) root p st"
    by (rule runDataTypeRule_below [OF n]) (simp add: Cons.prems)
  have 2: "\<And>s. applyDataTypeRules rs A (below A root p) root p s
                = applyDataTypeRules rs A (getDataType A root) root p s"
    by (rule Cons.IH) (simp add: Cons.prems)
  show ?case unfolding applyDataTypeRules.simps 1 2 ..
qed

lemma SchwaAnalyzer_access_rule:
  "dataTypeRuleMap SchwaAnalyzer ty = Some rules \<Longrightarrow> DataTypeRule_Access \<in> set rules
     \<Longrightarrow> ty = AstAccess"
  by (auto simp add: SchwaAnalyzer_def schwaRegistrations_def newAnalyzer_def registerScope_def
        registerDataType_def registerDataTypeUnaryOp_def registerDataTypeBinaryOp_def push_def
        split: if_splits)

lemma getDataType_SchwaAnalyzer:
  "getDataType SchwaAnalyzer root p st =
     (case nodeAt root p of
        None \<Rightarrow> Inl TypeError
      | Some n \<Rightarrow>
          (let st1 = (if \<not> n_valid n then setType p (Some DataType_Invalid) st else st) in
           if truthy (typeAnn st1 p) then Inr (st1, the (typeAnn st1 p))
           else (case (case dataTypeRuleMap SchwaAnalyzer (n_type n) of
                         None \<Rightarrow> Inr st1
                       | Some rules \<Rightarrow>
                           applyDataTypeRules rules SchwaAnalyzer
                             (getDataType SchwaAnalyzer root) root p st1) of
                   Inl e \<Rightarrow> Inl e
                 | Inr st2 \<Rightarrow>
                     if \<not> truthy (typeAnn st2 p)
                     then Inr (setType p (Some DataType_None) st2, DataType_None)
                     else Inr (st2, the (typeAnn st2 p)))))"
proof (cases "nodeAt root p")
  case None
  then show ?thesis by (simp add: getDataType_unfold [of SchwaAnalyzer root p st])
next
  case (Some n)
  show ?thesis
  proof (cases "dataTypeRuleMap SchwaAnalyzer (n_type n)")
    case None
    with Some show ?thesis by (simp add: getDataType_unfold [of SchwaAnalyzer root p st])
  next
    case (Some rules)
    have "\<And>s. applyDataTypeRules rules SchwaAnalyzer (below SchwaAnalyzer root p) root p s
              = applyDataTypeRules rules SchwaAnalyzer (getDataType SchwaAnalyzer root) root p s"
      by (rule applyDataTypeRules_below [OF \<open>nodeAt root p = Some n\<close>])
         (rule SchwaAnalyzer_access_rule [OF Some])
    with Some \<open>nodeAt root p = Some n\<close> show ?thesis
      by (simp add: getDataType_unfold [of SchwaAnalyzer root p st])
  qed
qed

subsection \<open>The state of a new \<open>SchwaAnalyzer\<close>\<close>

text \<open>
  Registering the builtin functions logs nothing and annotates no node; the first four
  registrations create the scope \<open>int\<close> under the root and the functions \<open>nop\<close> and
  \<open>int.load\<close>.
\<close>

lemma builtinScope_frame:
  "builtinScope parts scope st = (st', s) \<Longrightarrow>
     logger st' = logger st \<and> scopeAnn st' = scopeAnn st \<and> typeAnn st' = typeAnn st"
proof (induction parts arbitrary: scope st)
  case Nil
  then show ?case by simp
next
  case (Cons part parts)
  show ?case
  proof (cases "scopes (store st (s_addr scope)) part")
    case None
    with Cons.prems Cons.IH show ?thesis
      by (fastforce simp: newScope_def updMaps_def)
  next
    case (Some s0)
    with Cons.prems Cons.IH show ?thesis by simp
  qed
qed

lemma registerBuiltinFunc_frame:
  "logger (registerBuiltinFunc path ty pts pns st) = logger st
   \<and> scopeAnn (registerBuiltinFunc path ty pts pns st) = scopeAnn st
   \<and> typeAnn (registerBuiltinFunc path ty pts pns st) = typeAnn st"
proof -
  obtain st1 scope where b: "builtinScope (butlast (splitOn CHR ''.'' path)) rootScope st = (st1, scope)"
    by (cases "builtinScope (butlast (splitOn CHR ''.'' path)) rootScope st") auto
  from builtinScope_frame [OF b] b show ?thesis
    by (simp add: registerBuiltinFunc_def Let_def updMaps_def)
qed

lemma fold_registerBuiltinFunc_frame:
  "logger (fold (\<lambda>(path, ty, pts, pns). registerBuiltinFunc path ty pts pns) bs st) = logger st
   \<and> scopeAnn (fold (\<lambda>(path, ty, pts, pns). registerBuiltinFunc path ty pts pns) bs st) = scopeAnn st
   \<and> typeAnn (fold (\<lambda>(path, ty, pts, pns). registerBuiltinFunc path ty pts pns) bs st) = typeAnn st"
  by (induction bs arbitrary: st) (auto simp: registerBuiltinFunc_frame)

lemma schwaState_fresh:
  "logger schwaState = [] \<and> scopeAnn schwaState = Map.empty \<and> typeAnn schwaState = Map.empty"
  unfolding schwaState_def by (simp add: fold_registerBuiltinFunc_frame initState_def)

lemma registerBuiltinFunc_example:
  "(let st = fold (\<lambda>(path, ty, paramTypes, paramNames).
                     registerBuiltinFunc path ty paramTypes paramNames)
               (take 4 schwaBuiltins) initState
    in next_addr st = 2
       \<and> map_option f_type (getFunction (store st) rootScope ''nop'') = Some DataType_None
       \<and> (case getScopeIn (store st) rootScope ''int'' of
             None \<Rightarrow> False
           | Some s \<Rightarrow>
               map_option (\<lambda>f. (f_type f, map v_type (f_params f), map v_id (f_params f)))
                 (getFunction (store st) s ''load'')
               = Some (DataType_Int, [DataType_UInt], [''addr''])))"
  by code_simp

subsection \<open>The claims\<close>

lemma fold_size_nonneg:
  assumes "\<And>field s. field \<in> set fs \<Longrightarrow> 0 \<le> snd (g field s)"
  shows "0 \<le> (acc::int) \<Longrightarrow>
    0 \<le> snd (fold (\<lambda>field (s, size). (case g field s of (s', n) \<Rightarrow> (s', size + n))) fs (st, acc))"
  using assms
proof (induction fs arbitrary: st acc)
  case Nil
  then show ?case by simp
next
  case (Cons f fs)
  obtain s' n where g: "g f st = (s', n)" by (cases "g f st")
  have "0 \<le> snd (g f st)" using Cons.prems(2) by simp
  with g have "0 \<le> n" by simp
  with Cons.prems(1) have "0 \<le> acc + n" by simp
  from Cons.IH [OF this] Cons.prems(2) show ?case
    by (simp add: g)
qed

lemma getSize_nonneg: "0 \<le> snd (getSize v p depth st)"
proof (induction v p depth st rule: getSize.induct)
  case (1 v p depth st)
  show ?case
  proof (cases "getStruct (store st) p (v_type v)")
    case None
    then show ?thesis
      by (simp add: getSize.simps [of v p depth st] split: option.splits)
  next
    case (Some struct)
    show ?thesis
    proof (cases "depth > MAX_TYPE_DEPTH \<or> isPrimitive (v_type v)")
      case True
      then show ?thesis
        by (auto simp add: getSize.simps [of v p depth st])
    next
      case False
      have prim: "\<not> (v_type v = DataType_Int \<or> v_type v = DataType_UInt
              \<or> v_type v = DataType_Float \<or> v_type v = DataType_Bool)"
        "\<not> (v_type v = DataType_Long \<or> v_type v = DataType_ULong
              \<or> v_type v = DataType_Double)"
        using False by (auto simp: isPrimitive_def)
      have ih: "\<And>field s. field \<in> set (st_fields struct) \<Longrightarrow>
          0 \<le> snd (getSize field (v_scope field) (depth + 1) s)"
        using "1.IH" False prim Some by blast
      have "0 \<le> snd (fold (\<lambda>field (s, size).
                (case getSize field (v_scope field) (depth + 1) s of
                   (s', n) \<Rightarrow> (s', size + n))) (st_fields struct) (st, 0))"
        by (rule fold_size_nonneg [where g = "\<lambda>field s. getSize field (v_scope field) (depth + 1) s"])
           (use ih in auto)
      then show ?thesis
        using False prim Some by (simp add: getSize.simps [of v p depth st])
    qed
  qed
qed

text \<open>
  C2. \<open>getSize\<close> is a total function: its recursion is bounded by the depth parameter
  (the termination proof above measures \<open>17 - depth\<close>, whatever the structs refer to).
  Beyond depth 16 it returns 0 at once, leaving the state as it is, and the size it
  computes is never negative.
\<close>

theorem getSize_depth_bounded:
  "(MAX_TYPE_DEPTH < depth \<longrightarrow> getSize v p depth st = (st, 0))
   \<and> 0 \<le> snd (getSize v p depth st)"
proof
  show "MAX_TYPE_DEPTH < depth \<longrightarrow> getSize v p depth st = (st, 0)"
    by (simp add: getSize.simps [of v p depth st])
  show "0 \<le> snd (getSize v p depth st)"
    by (rule getSize_nonneg)
qed

theorem getSize_depth_bounded_witness:
  "MAX_TYPE_DEPTH < 17
   \<and> getSize ex_list_var rootScope 17 ex_list_state = (ex_list_state, 0)
   \<and> 0 \<le> snd (getSize ex_list_var rootScope 0 ex_list_state)
   \<and> snd (getSize ex_list_var rootScope 0 ex_list_state) = 64"
proof -
  have d: "MAX_TYPE_DEPTH < 17" by (simp add: MAX_TYPE_DEPTH_def)
  have v: "snd (getSize ex_list_var rootScope 0 ex_list_state) = 64"
    by (simp add: getSize.simps ex_defs isPrimitive_def MAX_TYPE_DEPTH_def)
  from getSize_depth_bounded [of 17 ex_list_var rootScope ex_list_state] d
  have "getSize ex_list_var rootScope 17 ex_list_state = (ex_list_state, 0)" by blast
  with d v getSize_depth_bounded [of 0 ex_list_var rootScope ex_list_state]
  show ?thesis by simp
qed

text \<open>
  C9 (as stated). The claim lists \<open>bool\<close> among the types of size 0; the switch of
  \<open>getSize\<close> has \<open>bool\<close> in the 4-byte group.
\<close>

theorem getSize_bool_counterexample:
  "snd (getSize ex_bool_var rootScope 0 ex_list_state) \<noteq> 0"
  by (simp add: getSize.simps ex_defs MAX_TYPE_DEPTH_def)

text \<open>
  C9 (amended). For a variable of type \<open>void\<close>, \<open>invalid\<close> or \<open>type\<close>, \<open>getSize\<close> returns
  0 at every depth; for a variable of type \<open>bool\<close> it returns 4 up to depth 16 (and 0
  beyond). The state is left as it was.
\<close>

theorem getSize_unsized_primitives:
  "(v_type v = DataType_None \<or> v_type v = DataType_Invalid \<or> v_type v = DataType_Type
      \<longrightarrow> getSize v p depth st = (st, 0))
   \<and> (v_type v = DataType_Bool
      \<longrightarrow> getSize v p depth st = (st, if depth > MAX_TYPE_DEPTH then 0 else 4))"
  by (auto simp add: getSize.simps [of v p depth st] isPrimitive_def)

theorem getSize_unsized_primitives_witness:
  "v_type ex_void_var = DataType_None
   \<and> getSize ex_void_var rootScope 0 ex_list_state = (ex_list_state, 0)
   \<and> v_type ex_bool_var = DataType_Bool
   \<and> getSize ex_bool_var rootScope 0 ex_list_state = (ex_list_state, 4)"
proof -
  have a: "v_type ex_void_var = DataType_None" and b: "v_type ex_bool_var = DataType_Bool"
    by (simp_all add: ex_defs)
  from a getSize_unsized_primitives [of ex_void_var rootScope 0 ex_list_state]
  have 1: "getSize ex_void_var rootScope 0 ex_list_state = (ex_list_state, 0)" by blast
  from b getSize_unsized_primitives [of ex_bool_var rootScope 0 ex_list_state]
  have 2: "getSize ex_bool_var rootScope 0 ex_list_state = (ex_list_state, 4)"
    by (simp add: MAX_TYPE_DEPTH_def)
  from a b 1 2 show ?thesis by simp
qed

lemma SchwaAnalyzer_no_analysis_rules: "analysisRuleMap SchwaAnalyzer = Map.empty"
  by (simp add: SchwaAnalyzer_def schwaRegistrations_def newAnalyzer_def registerScope_def
        registerDataType_def registerDataTypeUnaryOp_def registerDataTypeBinaryOp_def)


















text \<open>
  C8. When \<open>analyze\<close> has returned, a second \<open>analyze\<close> on the same tree, by the same
  analyzer, returns with the state unchanged: the same scope and data type on every
  node, the same scopes and symbols, and no further diagnostic.
\<close>

theorem analyze_twice:
  assumes "analyze SchwaAnalyzer ast st = Inr st1"
  shows "analyze SchwaAnalyzer ast st1 = Inr st1"
  using analyze_idempotent [OF SchwaAnalyzer_no_analysis_rules]
    analyze_annotated [OF SchwaAnalyzer_no_analysis_rules assms]
  by blast

theorem analyze_twice_witness:
  "\<exists>st1. analyze SchwaAnalyzer ex_program initState = Inr st1
     \<and> length (logger st1) = 1
     \<and> analyze SchwaAnalyzer ex_program st1 = Inr st1"
proof -
  have "(case analyze SchwaAnalyzer ex_program initState of
           Inl e \<Rightarrow> False | Inr st \<Rightarrow> length (logger st) = 1)"
    by code_simp
  then obtain st1 where a: "analyze SchwaAnalyzer ex_program initState = Inr st1"
    and l: "length (logger st1) = 1"
    by (auto split: sum.splits)
  from analyze_twice [OF a] a l show ?thesis by blast
qed

text \<open>
  C10. The constructor of \<open>SchwaAnalyzer\<close> registers no analysis rule, for any kind of
  node. The analysis pass over any tree returns the state it was given, and \<open>analyze\<close>
  is the hoist pass, the scope pass and the type pass: every diagnostic of a run is in
  the logger when the type pass returns.
\<close>

theorem analysis_pass_noop:
  "analysisRuleMap SchwaAnalyzer kind = None
   \<and> analysisPass SchwaAnalyzer ast [] st = Inr st
   \<and> analyze SchwaAnalyzer ast st =
       (case hoistPass SchwaAnalyzer ast [] st of
          Inl e \<Rightarrow> Inl e
        | Inr st1 \<Rightarrow>
            (case scopePass SchwaAnalyzer ast [] st1 of
               Inl e \<Rightarrow> Inl e
             | Inr st2 \<Rightarrow> typePass SchwaAnalyzer ast [] st2))"
proof -
  have noop: "analysisPass SchwaAnalyzer ast [] s = Inr s" for s
    by (rule analysisPass_no_rules [OF SchwaAnalyzer_no_analysis_rules]) simp
  show ?thesis
    by (simp add: SchwaAnalyzer_no_analysis_rules noop analyze_def split: sum.splits)
qed

theorem analysis_pass_noop_witness:
  "analysisRuleMap SchwaAnalyzer AstProgram = None
   \<and> analysisPass SchwaAnalyzer ex_program [] initState = Inr initState"
  using analysis_pass_noop [of AstProgram ex_program initState] by simp

end
